theory Spec2Isabelle
  imports Main "HOL-Library.AList"
begin

section \<open>The Ruby adapter of multilspy: \<open>ruby_lsp.py\<close>\<close>

text \<open>
  The class \<open>RubyLSP\<close> bootstraps the ruby-lsp gem into a directory of its own
  (\<open>setup_runtime_dependencies\<close>), builds the parameters of the LSP initialize request from
  a JSON template (\<open>_get_initialize_params\<close>) and drives one session of the language server
  inside an asynchronous context manager (\<open>start_server\<close>).

  The Python is embedded as pure functions. A raise is the left summand of a sum type, the
  objects the code mutates are passed through and returned, and everything the code reads from
  its surroundings (the two JSON files, the platform, the process id, \<open>pathlib\<close>, what
  \<open>os.makedirs\<close> does on the file system, the executables on the search path, the messages
  of the language server) is a field of a record
  that the functions take as an argument. The interpreter is taken in its default mode, in
  which an \<open>assert\<close> statement is executed.
\<close>

subsection \<open>Values loaded by \<open>json.load\<close>, and the exceptions of the code\<close>

text \<open>
  \<open>json.load\<close> yields \<open>None\<close>, booleans, integers, floats, strings, lists and dictionaries
  keyed by strings. A dictionary keeps its insertion order, so it is an association list.
  The code never computes with a number; a float is kept as the text it was written with.
\<close>

datatype json =
    JNull
  | JBool bool
  | JInt int
  | JFloat string
  | JStr string
  | JArr "json list"
  | JObj "(string \<times> json) list"

datatype error =
    KeyError json
  | IndexError
  | TypeError
  | ValueError
  | AssertionError
  | AttributeError
  | CalledProcessError int
  | HostError string

text \<open>Sequencing of statements that may raise: the first exception ends the function.\<close>

definition and_then :: "error + 'a \<Rightarrow> ('a \<Rightarrow> error + 'b) \<Rightarrow> error + 'b" where
  "and_then m f = (case m of Inl e \<Rightarrow> Inl e | Inr x \<Rightarrow> f x)"

text \<open>\<open>assert c\<close>\<close>

definition py_assert :: "bool \<Rightarrow> error + unit" where
  "py_assert c = (if c then Inr () else Inl AssertionError)"

text \<open>
  \<open>x[k]\<close> for a string \<open>k\<close>. Only a dictionary accepts a string as a subscript; a list and a
  string ask for an integer, the other values are not subscriptable.
\<close>

fun getitem_str :: "json \<Rightarrow> string \<Rightarrow> error + json" where
  "getitem_str (JObj kvs) k =
     (case map_of kvs k of None \<Rightarrow> Inl (KeyError (JStr k)) | Some v \<Rightarrow> Inr v)"
| "getitem_str _ k = Inl TypeError"

text \<open>
  \<open>x[i]\<close> for an integer \<open>i\<close>; a negative index counts from the end. A dictionary loaded
  from JSON has no integer key.
\<close>

definition seq_at :: "'a list \<Rightarrow> int \<Rightarrow> 'a option" where
  "seq_at xs i =
     (if - int (length xs) \<le> i \<and> i < 0 then Some (xs ! nat (int (length xs) + i))
      else if 0 \<le> i \<and> i < int (length xs) then Some (xs ! nat i)
      else None)"

fun getitem_int :: "json \<Rightarrow> int \<Rightarrow> error + json" where
  "getitem_int (JArr xs) i =
     (case seq_at xs i of Some x \<Rightarrow> Inr x | None \<Rightarrow> Inl IndexError)"
| "getitem_int (JStr s) i =
     (case seq_at s i of Some c \<Rightarrow> Inr (JStr [c]) | None \<Rightarrow> Inl IndexError)"
| "getitem_int (JObj kvs) i = Inl (KeyError (JInt i))"
| "getitem_int _ i = Inl TypeError"

text \<open>
  \<open>x[k] = v\<close> for a string \<open>k\<close>: an existing key keeps its place, a new key goes last.
\<close>

fun setitem_str :: "json \<Rightarrow> string \<Rightarrow> json \<Rightarrow> error + json" where
  "setitem_str (JObj kvs) k v = Inr (JObj (AList.update k v kvs))"
| "setitem_str _ k v = Inl TypeError"

text \<open>\<open>del x[k]\<close> for a string \<open>k\<close>\<close>

fun delitem_str :: "json \<Rightarrow> string \<Rightarrow> error + json" where
  "delitem_str (JObj kvs) k =
     (case map_of kvs k of
        None \<Rightarrow> Inl (KeyError (JStr k))
      | Some _ \<Rightarrow> Inr (JObj (AList.delete k kvs)))"
| "delitem_str _ k = Inl TypeError"

text \<open>
  \<open>d["workspaceFolders"][0][k] = v\<close>. Python evaluates \<open>d["workspaceFolders"]\<close>, then its
  element \<open>0\<close>, and stores into that object, which is part of \<open>d\<close>. The model stores into
  the element and puts it back where it was read. Only an element of a list is put back:
  the character read from a string is a new object, and storing into it raises.
\<close>

definition setitem_workspace_folder0 :: "json \<Rightarrow> string \<Rightarrow> json \<Rightarrow> error + json" where
  "setitem_workspace_folder0 d k v =
     and_then (getitem_str d ''workspaceFolders'') (\<lambda>ws.
     and_then (getitem_int ws 0) (\<lambda>w0.
     and_then (setitem_str w0 k v) (\<lambda>w0'.
       (case ws of
          JArr xs \<Rightarrow> setitem_str d ''workspaceFolders'' (JArr (xs[0 := w0']))
        | _ \<Rightarrow> Inl TypeError))))"

subsection \<open>What the adapter reads from the host\<close>

text \<open>
  The members of \<open>PlatformId\<close> that the code names. The enumeration is declared in
  \<open>multilspy_utils\<close>; its other members are \<open>Other_platform\<close>.
\<close>

datatype PlatformId =
    LINUX_x64 | LINUX_arm64 | OSX | OSX_x64 | OSX_arm64 | WIN_x64 | WIN_arm64
  | Other_platform string

text \<open>The result of \<open>subprocess.run\<close>: the exit status of the child, or no child at all.\<close>

datatype run_result = Exited int | Not_started error

record host =
  get_platform_id :: "error + PlatformId"        \<comment> \<open>\<open>PlatformUtils.get_platform_id()\<close>\<close>
  runtime_dependencies_json :: "error + json"    \<comment> \<open>\<open>json.load\<close> of \<open>runtime_dependencies.json\<close>\<close>
  initialize_params_json :: "error + json"       \<comment> \<open>\<open>json.load\<close> of \<open>initialize_params.json\<close>\<close>
  which :: "string \<Rightarrow> bool"                      \<comment> \<open>\<open>shutil.which(name) is not None\<close>\<close>
  pw_name :: "error + string"                    \<comment> \<open>\<open>pwd.getpwuid(os.getuid()).pw_name\<close>\<close>
  subprocess_run :: "json \<Rightarrow> run_result"          \<comment> \<open>the shell run on a command\<close>
  ruby_ls_dir :: string                          \<comment> \<open>\<open>dirname(__file__)/static/ruby-lsp\<close>\<close>
  makedirs :: "string \<Rightarrow> string list \<times> error option"
                                                 \<comment> \<open>\<open>os.makedirs(p, exist_ok=True)\<close>, see below\<close>
  getpid :: int                                  \<comment> \<open>\<open>os.getpid()\<close>\<close>
  is_absolute :: "string \<Rightarrow> bool"                \<comment> \<open>\<open>pathlib.Path(p).is_absolute()\<close>\<close>
  uri_of :: "string \<Rightarrow> string"                   \<comment> \<open>the file URI of an absolute path\<close>
  basename :: "string \<Rightarrow> string"                 \<comment> \<open>\<open>os.path.basename(p)\<close>\<close>

text \<open>
  \<open>pathlib.Path(p).as_uri()\<close> raises \<open>ValueError\<close> for a path that is not absolute.
\<close>

definition as_uri :: "host \<Rightarrow> string \<Rightarrow> error + string" where
  "as_uri h p = (if is_absolute h p then Inr (uri_of h p) else Inl ValueError)"

subsection \<open>\<open>_get_initialize_params\<close>\<close>

definition get_initialize_params :: "host \<Rightarrow> string \<Rightarrow> error + json" where
  "get_initialize_params h repository_absolute_path =
     and_then (initialize_params_json h) (\<lambda>d.
     and_then (delitem_str d ''_description'') (\<lambda>d.
     and_then (setitem_str d ''processId'' (JInt (getpid h))) (\<lambda>d.
     and_then (getitem_str d ''rootPath'') (\<lambda>v.
     and_then (py_assert (v = JStr ''$rootPath'')) (\<lambda>_.
     and_then (setitem_str d ''rootPath'' (JStr repository_absolute_path)) (\<lambda>d.
     and_then (getitem_str d ''rootUri'') (\<lambda>v.
     and_then (py_assert (v = JStr ''$rootUri'')) (\<lambda>_.
     and_then (as_uri h repository_absolute_path) (\<lambda>u.
     and_then (setitem_str d ''rootUri'' (JStr u)) (\<lambda>d.
     and_then (getitem_str d ''workspaceFolders'') (\<lambda>ws.
     and_then (getitem_int ws 0) (\<lambda>w0.
     and_then (getitem_str w0 ''uri'') (\<lambda>v.
     and_then (py_assert (v = JStr ''$uri'')) (\<lambda>_.
     and_then (as_uri h repository_absolute_path) (\<lambda>u.
     and_then (setitem_workspace_folder0 d ''uri'' (JStr u)) (\<lambda>d.
     and_then (getitem_str d ''workspaceFolders'') (\<lambda>ws.
     and_then (getitem_int ws 0) (\<lambda>w0.
     and_then (getitem_str w0 ''name'') (\<lambda>v.
     and_then (py_assert (v = JStr ''$name'')) (\<lambda>_.
     and_then (setitem_workspace_folder0 d ''name''
            (JStr (basename h repository_absolute_path))) (\<lambda>d.
       Inr d)))))))))))))))))))))"

subsection \<open>\<open>setup_runtime_dependencies\<close>\<close>

text \<open>
  What the bootstrapper changes outside the interpreter: the paths that exist, and the
  commands for which \<open>subprocess.run\<close> started a child process, oldest first. What an
  install command writes is the command's own business and is not followed.
\<close>

record world =
  existing :: "string set"
  spawned :: "json list"

definition valid_platforms :: "PlatformId list" where
  "valid_platforms =
     [LINUX_x64, LINUX_arm64, OSX, OSX_x64, OSX_arm64, WIN_x64, WIN_arm64]"

text \<open>\<open>d.get(k, default)\<close>: only a dictionary has the method.\<close>

fun dict_get :: "json \<Rightarrow> string \<Rightarrow> json \<Rightarrow> error + json" where
  "dict_get (JObj kvs) k dflt = Inr (case map_of kvs k of None \<Rightarrow> dflt | Some v \<Rightarrow> v)"
| "dict_get _ k dflt = Inl AttributeError"

text \<open>
  The elements a \<open>for\<close> loop visits: those of a list, the keys of a dictionary, the
  characters of a string. The other values are not iterable.
\<close>

fun py_iter :: "json \<Rightarrow> error + json list" where
  "py_iter (JArr xs) = Inr xs"
| "py_iter (JObj kvs) = Inr (map (\<lambda>kv. JStr (fst kv)) kvs)"
| "py_iter (JStr s) = Inr (map (\<lambda>c. JStr [c]) s)"
| "py_iter _ = Inl TypeError"

text \<open>
  The body of the loop of lines 81 to 91, for the dependencies still to visit.
  \<open>check=True\<close> raises \<open>CalledProcessError\<close> when the child exits with a status other than
  zero; the child has run by then.
\<close>

fun install :: "host \<Rightarrow> json list \<Rightarrow> world \<Rightarrow> (error + unit) \<times> world" where
  "install h [] w = (Inr (), w)"
| "install h (dependency # rest) w =
     (case pw_name h of
        Inl e \<Rightarrow> (Inl e, w)
      | Inr user \<Rightarrow>
          (case getitem_str dependency ''command'' of
             Inl e \<Rightarrow> (Inl e, w)
           | Inr command \<Rightarrow>
               (case subprocess_run h command of
                  Not_started e \<Rightarrow> (Inl e, w)
                | Exited status \<Rightarrow>
                    (let w' = w\<lparr>spawned := spawned w @ [command]\<rparr>
                     in if status = 0 then install h rest w'
                        else (Inl (CalledProcessError status), w')))))"

definition ruby_lsp_command :: string where
  "ruby_lsp_command = ''bundle exec ruby-lsp''"

text \<open>
  \<open>os.makedirs(self.ruby_ls_dir, exist_ok=True)\<close> is the interpreter's, and what it does
  depends on the file system of the host. The field \<open>makedirs\<close> of the host gives, for a
  path that does not exist, the directories that the call makes on its way (the missing
  parents of the path) and the \<open>OSError\<close> that it raises, if it raises: no permission to
  write, a file or a dangling symbolic link under that name, a read-only file system.
  When it raises, the parents made before stay; when it does not, the directory exists
  afterwards. The exception is not caught and ends \<open>setup_runtime_dependencies\<close>.
\<close>

definition setup_runtime_dependencies :: "host \<Rightarrow> world \<Rightarrow> (error + string) \<times> world" where
  "setup_runtime_dependencies h w =
     (case get_platform_id h of
        Inl e \<Rightarrow> (Inl e, w)
      | Inr platform_id \<Rightarrow>
     if platform_id \<notin> set valid_platforms then (Inl AssertionError, w) else
     (case runtime_dependencies_json h of
        Inl e \<Rightarrow> (Inl e, w)
      | Inr d \<Rightarrow>
     (case delitem_str d ''_description'' of
        Inl e \<Rightarrow> (Inl e, w)
      | Inr d \<Rightarrow>
     (case dict_get d ''runtimeDependencies'' (JArr []) of
        Inl e \<Rightarrow> (Inl e, w)
      | Inr runtime_dependencies \<Rightarrow>
     if \<not> which h ''bundle'' then (Inl AssertionError, w) else
     if \<not> which h ''gem'' then (Inl AssertionError, w) else
     if ruby_ls_dir h \<notin> existing w then
       (case makedirs h (ruby_ls_dir h) of
          (made, Some e) \<Rightarrow> (Inl e, w\<lparr>existing := existing w \<union> set made\<rparr>)
        | (made, None) \<Rightarrow>
       (let w = w\<lparr>existing := insert (ruby_ls_dir h) (existing w \<union> set made)\<rparr>
        in case py_iter runtime_dependencies of
             Inl e \<Rightarrow> (Inl e, w)
           | Inr dependencies \<Rightarrow>
               (case install h dependencies w of
                  (Inl e, w) \<Rightarrow> (Inl e, w)
                | (Inr _, w) \<Rightarrow> (Inr ruby_lsp_command, w))))
     else (Inr ruby_lsp_command, w)))))"

subsection \<open>The adapter and its connection\<close>

text \<open>The three callbacks that \<open>start_server\<close> defines and registers.\<close>

datatype handler = Window_log_message | Do_nothing | Execute_client_command_handler

text \<open>What the language server sends to the client.\<close>

datatype inbound = Notification string json | Request string json

text \<open>
  What is seen at the connection and at the child process, in the order it happens: a
  request or a notification sent by the client, the response to a request, a callback run on
  an inbound notification or request (with the method, the callback and the parameters), and
  the point where the context manager hands the adapter to its caller.
\<close>

datatype event =
    Process_started
  | Sent_request string json
  | Received_response string json
  | Sent_notification string json
  | Notified string handler json
  | Requested string handler json
  | Handler_raised handler error
  | Unhandled inbound
  | Yielded
  | Process_stopped

text \<open>
  The fields of a \<open>RubyLSP\<close> object and of its \<open>server\<close> that the code touches.
  \<open>server_ready\<close> and \<open>completions_available\<close> are \<open>asyncio.Event\<close> objects.
\<close>

record adapter =
  repository_root_path :: string
  launch_cmd :: string
  launch_cwd :: string
  language_id :: string
  server_ready :: bool
  completions_available :: bool
  on_notification_handlers :: "(string \<times> handler) list"
  on_request_handlers :: "(string \<times> handler) list"
  process_running :: bool
  trace :: "event list"

definition emit :: "event \<Rightarrow> adapter \<Rightarrow> adapter" where
  "emit e a = a\<lparr>trace := trace a @ [e]\<rparr>"

text \<open>
  \<open>__init__\<close>: the launch command comes from \<open>setup_runtime_dependencies\<close>, and an
  exception of that call leaves no object. \<open>server_ready\<close> is a new \<open>asyncio.Event\<close>,
  which is not set.

  Modelled from the spec: the constructor of the base class \<open>LanguageServer\<close> is declared in
  \<open>language_server.py\<close>. By section 3 it stores the descriptor (launch command, working
  directory, language identifier) and the repository root, the handler registry is empty until
  the handshake registers handlers, and no process runs before the session launches it.
\<close>

definition init :: "host \<Rightarrow> string \<Rightarrow> world \<Rightarrow> (error + adapter) \<times> world" where
  "init h root w =
     (case setup_runtime_dependencies h w of
        (Inl e, w) \<Rightarrow> (Inl e, w)
      | (Inr cmd, w) \<Rightarrow>
          (Inr \<lparr>repository_root_path = root, launch_cmd = cmd, launch_cwd = ruby_ls_dir h,
                language_id = ''ruby'', server_ready = False, completions_available = False,
                on_notification_handlers = [], on_request_handlers = [],
                process_running = False, trace = []\<rparr>, w))"

subsection \<open>The callbacks\<close>

text \<open>\<open>m in s\<close> for two strings: \<open>m\<close> occurs in \<open>s\<close> as a run of characters.\<close>

fun starts_with :: "string \<Rightarrow> string \<Rightarrow> bool" where
  "starts_with [] s = True"
| "starts_with (c # m) [] = False"
| "starts_with (c # m) (c' # s) = (c = c' \<and> starts_with m s)"

fun occurs_in :: "string \<Rightarrow> string \<Rightarrow> bool" where
  "occurs_in m [] = (m = [])"
| "occurs_in m (c # s) = (starts_with m (c # s) \<or> occurs_in m s)"

text \<open>
  \<open>m in x\<close> for a string \<open>m\<close> and a loaded value \<open>x\<close>: a substring test on a string,
  membership in a list, a key test on a dictionary, \<open>TypeError\<close> otherwise.
\<close>

fun py_in :: "string \<Rightarrow> json \<Rightarrow> error + bool" where
  "py_in m (JStr s) = Inr (occurs_in m s)"
| "py_in m (JArr xs) = Inr (JStr m \<in> set xs)"
| "py_in m (JObj kvs) = Inr (map_of kvs m \<noteq> None)"
| "py_in m _ = Inl TypeError"

text \<open>The test of line 143, \<open>"Finished" in msg["message"]\<close>.\<close>

definition finished_in :: "json \<Rightarrow> error + bool" where
  "finished_in msg = and_then (getitem_str msg ''message'') (py_in ''Finished'')"

text \<open>
  Lines 141 to 144. The call of the logger leaves the adapter as it is.
  \<open>asyncio.Event.set\<close> on an event that is set leaves it set.
\<close>

definition window_log_message :: "json \<Rightarrow> adapter \<Rightarrow> (error + json) \<times> adapter" where
  "window_log_message msg a =
     (case finished_in msg of
        Inl e \<Rightarrow> (Inl e, a)
      | Inr found \<Rightarrow> (Inr JNull, if found then a\<lparr>server_ready := True\<rparr> else a))"

definition do_nothing :: "json \<Rightarrow> adapter \<Rightarrow> (error + json) \<times> adapter" where
  "do_nothing params a = (Inr JNull, a)"

definition execute_client_command_handler ::
    "json \<Rightarrow> adapter \<Rightarrow> (error + json) \<times> adapter" where
  "execute_client_command_handler params a = (Inr (JArr []), a)"

fun run_handler :: "handler \<Rightarrow> json \<Rightarrow> adapter \<Rightarrow> (error + json) \<times> adapter" where
  "run_handler Window_log_message = window_log_message"
| "run_handler Do_nothing = do_nothing"
| "run_handler Execute_client_command_handler = execute_client_command_handler"

subsection \<open>The connection\<close>

text \<open>
  The connection is the object \<open>self.server\<close>, declared in \<open>lsp_protocol_handler/server.py\<close>.

  Modelled from the spec: sections 3 and 6 give its contract. \<open>on_notification\<close> and
  \<open>on_request\<close> bind a method name to a handler, a later binding of a name replacing the
  earlier one. A handler is run for its method name on every inbound message, once per
  message; a message whose method has no handler is dropped. An exception of a handler stays
  with the connection and does not end the session. While the client waits, inbound messages
  are handled in the order they arrive.
\<close>

definition on_notification :: "string \<Rightarrow> handler \<Rightarrow> adapter \<Rightarrow> adapter" where
  "on_notification method cb a =
     a\<lparr>on_notification_handlers := AList.update method cb (on_notification_handlers a)\<rparr>"

definition on_request :: "string \<Rightarrow> handler \<Rightarrow> adapter \<Rightarrow> adapter" where
  "on_request method cb a =
     a\<lparr>on_request_handlers := AList.update method cb (on_request_handlers a)\<rparr>"

definition finish_handler :: "handler \<Rightarrow> (error + json) \<times> adapter \<Rightarrow> adapter" where
  "finish_handler cb ra =
     (case fst ra of Inl e \<Rightarrow> emit (Handler_raised cb e) (snd ra) | Inr _ \<Rightarrow> snd ra)"

fun dispatch :: "inbound \<Rightarrow> adapter \<Rightarrow> adapter" where
  "dispatch (Notification method params) a =
     (case map_of (on_notification_handlers a) method of
        None \<Rightarrow> emit (Unhandled (Notification method params)) a
      | Some cb \<Rightarrow> finish_handler cb (run_handler cb params (emit (Notified method cb params) a)))"
| "dispatch (Request method params) a =
     (case map_of (on_request_handlers a) method of
        None \<Rightarrow> emit (Unhandled (Request method params)) a
      | Some cb \<Rightarrow> finish_handler cb (run_handler cb params (emit (Requested method cb params) a)))"

fun dispatch_all :: "inbound list \<Rightarrow> adapter \<Rightarrow> adapter" where
  "dispatch_all [] a = a"
| "dispatch_all (m # ms) a = dispatch_all ms (dispatch m a)"

text \<open>
  Modelled from the spec: \<open>sendRequest(method, params) -> response\<close> of section 6. The
  request is sent, the messages that arrive before the response are handled, and the call
  returns the response or raises (a timeout, an error response, a dead process).
\<close>

definition send_request ::
    "string \<Rightarrow> json \<Rightarrow> inbound list \<Rightarrow> error + json \<Rightarrow> adapter \<Rightarrow> (error + json) \<times> adapter" where
  "send_request method params arriving result a =
     (let a = dispatch_all arriving (emit (Sent_request method params) a)
      in case result of
           Inl e \<Rightarrow> (Inl e, a)
         | Inr r \<Rightarrow> (Inr r, emit (Received_response method r) a))"

text \<open>Modelled from the spec: \<open>sendNotification(method, params)\<close>, fire and forget.\<close>

definition send_notification :: "string \<Rightarrow> json \<Rightarrow> adapter \<Rightarrow> adapter" where
  "send_notification method params a = emit (Sent_notification method params) a"

text \<open>
  Modelled from the spec: the lifecycle hooks \<open>start()\<close> and \<open>stop()\<close> of section 6 and the
  shutdown of section 4.4: a shutdown request is sent and acknowledged, then an exit
  notification is sent; \<open>stop\<close> ends the child process.
\<close>

definition server_start :: "error option \<Rightarrow> adapter \<Rightarrow> (error + unit) \<times> adapter" where
  "server_start failure a =
     (case failure of
        Some e \<Rightarrow> (Inl e, a)
      | None \<Rightarrow> (Inr (), emit Process_started (a\<lparr>process_running := True\<rparr>)))"

definition server_shutdown ::
    "inbound list \<Rightarrow> error + json \<Rightarrow> adapter \<Rightarrow> (error + unit) \<times> adapter" where
  "server_shutdown arriving result a =
     (case send_request ''shutdown'' JNull arriving result a of
        (Inl e, a) \<Rightarrow> (Inl e, a)
      | (Inr _, a) \<Rightarrow> (Inr (), send_notification ''exit'' JNull a))"

definition server_stop :: "adapter \<Rightarrow> adapter" where
  "server_stop a = emit Process_stopped (a\<lparr>process_running := False\<rparr>)"

subsection \<open>\<open>start_server\<close>\<close>

text \<open>
  What one session meets and cannot choose: whether the process starts, the messages that
  arrive while the client waits for the response to initialize, that response, the messages
  that arrive while the client waits for \<open>server_ready\<close>, what arrives while the caller's block
  runs and whether that block raises, and the same for the shutdown request.
\<close>

record session =
  start_failure :: "error option"
  arriving_initialize :: "inbound list"
  initialize_result :: "error + json"
  arriving_wait :: "inbound list"
  arriving_body :: "inbound list"
  body_raises :: "error option"
  arriving_shutdown :: "inbound list"
  shutdown_result :: "error + json"

text \<open>
  A coroutine ends by returning or by raising, or it stays suspended for good at an
  \<open>await\<close>.
\<close>

datatype outcome = Completed | Raised error | Blocked

text \<open>
  \<open>await self.server_ready.wait()\<close> returns at once when the event is set. Otherwise the
  coroutine is suspended while inbound messages are handled, until a handler sets the event;
  when the messages end with the event not set, the coroutine is never resumed.
\<close>

fun wait_ready :: "inbound list \<Rightarrow> adapter \<Rightarrow> bool \<times> adapter" where
  "wait_ready [] a = (server_ready a, a)"
| "wait_ready (m # ms) a =
     (if server_ready a then (True, a) else wait_ready ms (dispatch m a))"

text \<open>
  Modelled from the spec: \<open>super().start_server()\<close> is the context manager of the base
  class, declared in \<open>language_server.py\<close>. Section 4.6 gives the launch, the handshake and
  the shutdown to the facade, so the scope of the base class runs the block it encloses
  and passes its outcome on.
\<close>

definition super_start_server ::
    "(adapter \<Rightarrow> outcome \<times> adapter) \<Rightarrow> adapter \<Rightarrow> outcome \<times> adapter" where
  "super_start_server block a = block a"

text \<open>Lines 146 to 151.\<close>

definition register_handlers :: "adapter \<Rightarrow> adapter" where
  "register_handlers a =
     on_notification ''textDocument/publishDiagnostics'' Do_nothing
       (on_notification ''$/progress'' Do_nothing
         (on_request ''workspace/executeClientCommand'' Execute_client_command_handler
           (on_notification ''window/logMessage'' Window_log_message a)))"

text \<open>Lines 154 to 168: from the start of the process to the end of the wait.\<close>

definition handshake :: "host \<Rightarrow> session \<Rightarrow> adapter \<Rightarrow> outcome \<times> adapter" where
  "handshake h s a =
     (case server_start (start_failure s) a of
        (Inl e, a) \<Rightarrow> (Raised e, a)
      | (Inr _, a) \<Rightarrow>
     (case get_initialize_params h (repository_root_path a) of
        Inl e \<Rightarrow> (Raised e, a)
      | Inr initialize_params \<Rightarrow>
     (case send_request ''initialize'' initialize_params
             (arriving_initialize s) (initialize_result s) a of
        (Inl e, a) \<Rightarrow> (Raised e, a)
      | (Inr _, a) \<Rightarrow>
     (let a = send_notification ''initialized'' (JObj []) a;
          a = a\<lparr>completions_available := True\<rparr>
      in case wait_ready (arriving_wait s) a of
           (False, a) \<Rightarrow> (Blocked, a)
         | (True, a) \<Rightarrow> (Completed, a)))))"

text \<open>
  Lines 169 to 172. \<open>yield self\<close> hands the adapter to the block of the caller's
  \<open>async with\<close>. When the block ends, the generator is resumed after the \<open>yield\<close> and runs
  lines 171 and 172. When the block raises, \<open>asynccontextmanager\<close> throws the exception into
  the generator at the \<open>yield\<close>; no \<open>try\<close> encloses the \<open>yield\<close>, so the exception leaves the
  generator there and lines 171 and 172 are not run.
\<close>

definition after_yield :: "session \<Rightarrow> adapter \<Rightarrow> outcome \<times> adapter" where
  "after_yield s a =
     (let a = dispatch_all (arriving_body s) (emit Yielded a)
      in case body_raises s of
           Some e \<Rightarrow> (Raised e, a)
         | None \<Rightarrow>
             (case server_shutdown (arriving_shutdown s) (shutdown_result s) a of
                (Inl e, a) \<Rightarrow> (Raised e, a)
              | (Inr _, a) \<Rightarrow> (Completed, server_stop a)))"

definition start_server :: "host \<Rightarrow> session \<Rightarrow> adapter \<Rightarrow> outcome \<times> adapter" where
  "start_server h s a =
     super_start_server
       (\<lambda>a. case handshake h s a of
               (Completed, a) \<Rightarrow> after_yield s a
             | (r, a) \<Rightarrow> (r, a))
       (register_handlers a)"

section \<open>The vocabulary of the properties\<close>

text \<open>The value under a key of a dictionary; no value when the key or the dictionary is missing.\<close>

fun field :: "json \<Rightarrow> string \<Rightarrow> json option" where
  "field (JObj kvs) k = map_of kvs k"
| "field _ k = None"

text \<open>The first entry of \<open>workspaceFolders\<close>.\<close>

definition first_workspace_folder :: "json \<Rightarrow> json option" where
  "first_workspace_folder d =
     (case field d ''workspaceFolders'' of
        Some (JArr (w # rest)) \<Rightarrow> Some w
      | _ \<Rightarrow> None)"

text \<open>Each of the four sentinel fields of a template is present and holds its sentinel.\<close>

definition sentinels_present :: "json \<Rightarrow> bool" where
  "sentinels_present d =
     (field d ''rootPath'' = Some (JStr ''$rootPath'') \<and>
      field d ''rootUri'' = Some (JStr ''$rootUri'') \<and>
      (case first_workspace_folder d of
         None \<Rightarrow> False
       | Some w \<Rightarrow> field w ''uri'' = Some (JStr ''$uri'') \<and>
                   field w ''name'' = Some (JStr ''$name'')))"

text \<open>The events that handling an inbound message leaves in the trace.\<close>

fun from_server :: "event \<Rightarrow> bool" where
  "from_server (Notified method cb params) = True"
| "from_server (Requested method cb params) = True"
| "from_server (Handler_raised cb e) = True"
| "from_server (Unhandled m) = True"
| "from_server _ = False"

text \<open>The response to the initialize request has arrived.\<close>

fun initialize_answered :: "event \<Rightarrow> bool" where
  "initialize_answered (Received_response method r) = (method = ''initialize'')"
| "initialize_answered _ = False"

text \<open>The initialized notification goes out.\<close>

fun initialized_sent :: "event \<Rightarrow> bool" where
  "initialized_sent (Sent_notification method params) = (method = ''initialized'')"
| "initialized_sent _ = False"

text \<open>
  The callback \<open>window_log_message\<close> is run on a \<open>window/logMessage\<close> notification for which
  the test of line 143 is true: this is what sets \<open>server_ready\<close>.
\<close>

fun test_passed :: "event \<Rightarrow> bool" where
  "test_passed (Notified method cb params) =
     (method = ''window/logMessage'' \<and> cb = Window_log_message \<and>
      finished_in params = Inr True)"
| "test_passed _ = False"

text \<open>
  In the words of the specification: a \<open>window/logMessage\<close> notification, observed by the
  registered handler, whose message text contains the completion marker. The message is a
  text, and \<open>Finished\<close> occurs in it.
\<close>

fun marker_observed :: "event \<Rightarrow> bool" where
  "marker_observed (Notified method cb params) =
     (method = ''window/logMessage'' \<and> cb = Window_log_message \<and>
      (case field params ''message'' of
         Some (JStr t) \<Rightarrow> occurs_in ''Finished'' t
       | _ \<Rightarrow> False))"
| "marker_observed _ = False"


text \<open>
  Reading a list of events from the oldest on: no event with \<open>Q\<close> comes before the first
  event with \<open>P\<close>, unless \<open>seen\<close> says that an event with \<open>P\<close> came before the list.
\<close>

fun guarded :: "('a \<Rightarrow> bool) \<Rightarrow> ('a \<Rightarrow> bool) \<Rightarrow> bool \<Rightarrow> 'a list \<Rightarrow> bool" where
  "guarded P Q seen [] = True"
| "guarded P Q seen (x # xs) = ((Q x \<longrightarrow> seen) \<and> guarded P Q (seen \<or> P x) xs)"

text \<open>
  What holds of an adapter between sessions. \<open>window_log_message\<close> is bound to no other
  method than \<open>window/logMessage\<close>, and \<open>server_ready\<close> is set only if the trace holds a
  run of the callback in which the test of line 143 was true.
\<close>

definition registry_ok :: "adapter \<Rightarrow> bool" where
  "registry_ok a =
     (list_all (\<lambda>b. snd b = Window_log_message \<longrightarrow> fst b = ''window/logMessage'')
        (on_notification_handlers a) \<and>
      list_all (\<lambda>b. snd b \<noteq> Window_log_message) (on_request_handlers a))"

definition session_inv :: "adapter \<Rightarrow> bool" where
  "session_inv a =
     (registry_ok a \<and> (server_ready a \<longrightarrow> list_ex test_passed (trace a)))"

text \<open>
  Adapter \<open>a'\<close> comes from \<open>a\<close> by handling inbound messages, which left the events \<open>ds\<close>:
  nothing but the trace and \<open>server_ready\<close> has changed, \<open>server_ready\<close> was not cleared,
  and it was set only by a run of the callback in which the test of line 143 was true.
\<close>

definition handled :: "adapter \<Rightarrow> adapter \<Rightarrow> event list \<Rightarrow> bool" where
  "handled a a' ds =
     (trace a' = trace a @ ds \<and> list_all from_server ds \<and>
      on_notification_handlers a' = on_notification_handlers a \<and>
      on_request_handlers a' = on_request_handlers a \<and>
      process_running a' = process_running a \<and>
      repository_root_path a' = repository_root_path a \<and>
      (server_ready a \<longrightarrow> server_ready a') \<and>
      (registry_ok a \<and> server_ready a' \<longrightarrow> server_ready a \<or> list_ex test_passed ds))"

text \<open>
  The install commands of a manifest can all be run: the dependency list can be iterated,
  and, if it has an entry, the name of the user is found, every entry has a \<open>command\<close> and
  the shell exits with status zero on it.
\<close>

definition installable :: "host \<Rightarrow> json \<Rightarrow> bool" where
  "installable h d =
     (case py_iter (case field d ''runtimeDependencies'' of None \<Rightarrow> JArr [] | Some v \<Rightarrow> v) of
        Inl e \<Rightarrow> False
      | Inr dependencies \<Rightarrow>
          (dependencies = [] \<or> (case pw_name h of Inl e \<Rightarrow> False | Inr user \<Rightarrow> True)) \<and>
          list_all (\<lambda>dependency.
                      case getitem_str dependency ''command'' of
                        Inl e \<Rightarrow> False
                      | Inr command \<Rightarrow> subprocess_run h command = Exited 0)
                   dependencies)"

section \<open>A host, a repository and some sessions\<close>

text \<open>
  A template and a manifest of the shape that section 6 of the specification gives, on a
  Linux host where \<open>bundle\<close> and \<open>gem\<close> are installed and every install command succeeds.
  The package lies under \<open>/opt/multilspy\<close>; its directory \<open>static\<close> is not there yet, and
  \<open>os.makedirs\<close> makes it on the way to the installation directory.
\<close>

definition example_template :: json where
  "example_template =
     JObj [(''_description'', JStr ''initialize params of ruby-lsp''),
           (''processId'', JStr ''os.getpid()''),
           (''rootPath'', JStr ''$rootPath''),
           (''rootUri'', JStr ''$rootUri''),
           (''capabilities'', JObj []),
           (''workspaceFolders'',
              JArr [JObj [(''uri'', JStr ''$uri''), (''name'', JStr ''$name'')]])]"

definition example_manifest :: json where
  "example_manifest =
     JObj [(''_description'', JStr ''runtime dependencies of ruby-lsp''),
           (''runtimeDependencies'',
              JArr [JObj [(''command'', JStr ''bundle init''),
                          (''description'', JStr ''create a Gemfile'')],
                    JObj [(''command'', JStr ''bundle add ruby-lsp''),
                          (''description'', JStr ''install ruby-lsp'')]])]"

definition example_host :: host where
  "example_host =
     \<lparr>get_platform_id = Inr LINUX_x64,
      runtime_dependencies_json = Inr example_manifest,
      initialize_params_json = Inr example_template,
      which = (\<lambda>name. True),
      pw_name = Inr ''dev'',
      subprocess_run = (\<lambda>command. Exited 0),
      ruby_ls_dir = ''/opt/multilspy/static/ruby-lsp'',
      makedirs = (\<lambda>p. ([''/opt/multilspy/static''], None)),
      getpid = 4242,
      is_absolute = (\<lambda>p. starts_with ''/'' p),
      uri_of = (\<lambda>p. ''file://'' @ p),
      basename = (\<lambda>p. rev (takeWhile (\<lambda>c. c \<noteq> CHR ''/'') (rev p)))\<rparr>"

definition example_world :: world where
  "example_world = \<lparr>existing = {''/opt/multilspy''}, spawned = []\<rparr>"

definition example_adapter :: adapter where
  "example_adapter =
     \<lparr>repository_root_path = ''/home/dev/todo'', launch_cmd = ''bundle exec ruby-lsp'',
      launch_cwd = ''/opt/multilspy/static/ruby-lsp'', language_id = ''ruby'',
      server_ready = False, completions_available = False,
      on_notification_handlers = [], on_request_handlers = [],
      process_running = False, trace = []\<rparr>"

text \<open>
  A session in which the server logs its progress and then that it has finished, and the
  block of the caller ends without an exception.
\<close>

definition example_session :: session where
  "example_session =
     \<lparr>start_failure = None,
      arriving_initialize =
        [Notification ''window/logMessage''
           (JObj [(''type'', JInt 3), (''message'', JStr ''Indexing'')])],
      initialize_result = Inr (JObj [(''capabilities'', JObj [])]),
      arriving_wait =
        [Notification ''$/progress'' JNull,
         Notification ''window/logMessage''
           (JObj [(''type'', JInt 3), (''message'', JStr ''Finished indexing'')])],
      arriving_body = [],
      body_raises = None,
      arriving_shutdown = [],
      shutdown_result = Inr JNull\<rparr>"

text \<open>The same session, but the block of the caller raises.\<close>

definition raising_session :: session where
  "raising_session = example_session\<lparr>body_raises := Some (HostError ''RuntimeError'')\<rparr>"



text \<open>A template whose root URI was substituted before: the sentinel \<open>$rootUri\<close> is gone.\<close>

definition mutated_template :: json where
  "mutated_template =
     JObj [(''_description'', JStr ''initialize params of ruby-lsp''),
           (''processId'', JStr ''os.getpid()''),
           (''rootPath'', JStr ''$rootPath''),
           (''rootUri'', JStr ''file:///home/dev/other''),
           (''workspaceFolders'',
              JArr [JObj [(''uri'', JStr ''$uri''), (''name'', JStr ''$name'')]])]"

text \<open>A manifest and a template without the key \<open>_description\<close>.\<close>

definition undescribed_manifest :: json where
  "undescribed_manifest =
     JObj [(''runtimeDependencies'',
              JArr [JObj [(''command'', JStr ''bundle init''),
                          (''description'', JStr ''create a Gemfile'')]])]"

definition undescribed_template :: json where
  "undescribed_template =
     JObj [(''rootPath'', JStr ''$rootPath''),
           (''rootUri'', JStr ''$rootUri''),
           (''workspaceFolders'',
              JArr [JObj [(''uri'', JStr ''$uri''), (''name'', JStr ''$name'')]])]"

text \<open>A manifest with no dependency list.\<close>

definition bare_manifest :: json where
  "bare_manifest = JObj [(''_description'', JStr ''runtime dependencies of ruby-lsp'')]"

text \<open>The world after a first bootstrap on the example host.\<close>

definition populated_world :: world where
  "populated_world =
     \<lparr>existing = {''/opt/multilspy'', ''/opt/multilspy/static'',
                  ''/opt/multilspy/static/ruby-lsp''},
      spawned = [JStr ''bundle init'', JStr ''bundle add ruby-lsp'']\<rparr>"

text \<open>
  The example host with a manifest with no dependency list, and the same host when the
  package directory cannot be written to.
\<close>

definition bare_host :: host where
  "bare_host = example_host\<lparr>runtime_dependencies_json := Inr bare_manifest\<rparr>"

definition readonly_host :: host where
  "readonly_host = bare_host\<lparr>makedirs := (\<lambda>p. ([], Some (HostError ''PermissionError'')))\<rparr>"

section \<open>Lemmas on the parameter builder and the bootstrapper\<close>

lemma getitem_str_field:
  "getitem_str d k = (case field d k of None \<Rightarrow> (case d of JObj kvs \<Rightarrow> Inl (KeyError (JStr k)) | _ \<Rightarrow> Inl TypeError) | Some v \<Rightarrow> Inr v)"
  by (cases d) (auto split: option.splits)

lemma getitem_str_Inr: "getitem_str d k = Inr v \<longleftrightarrow> field d k = Some v"
  by (cases d) (auto split: option.splits)

lemma and_then_Inr: "and_then m f = Inr y \<longleftrightarrow> (\<exists>x. m = Inr x \<and> f x = Inr y)"
  by (cases m) (auto simp: and_then_def)

lemma py_assert_Inr: "py_assert c = Inr u \<longleftrightarrow> c"
  by (auto simp: py_assert_def)

lemma delitem_str_Inr: "delitem_str d k = Inr d' \<longleftrightarrow> (\<exists>kvs. d = JObj kvs \<and> map_of kvs k \<noteq> None \<and> d' = JObj (AList.delete k kvs))"
  by (cases d) (auto split: option.splits)

lemma setitem_str_Inr: "setitem_str d k v = Inr d' \<longleftrightarrow> (\<exists>kvs. d = JObj kvs \<and> d' = JObj (AList.update k v kvs))"
  by (cases d) auto

lemma result_cases: "(\<exists>e. r = Inl e) \<or> (\<exists>x. r = Inr x)" for r :: "error + 'a"
  by (cases r) auto



lemma getitem_int_Cons0: "getitem_int (JArr (x # xs)) 0 = Inr x"
  by (simp add: seq_at_def)

lemma setitem_workspace_folder0_InrD:
  assumes "setitem_workspace_folder0 (JObj kvs) k v = Inr d'"
  shows "\<exists>w rest. map_of kvs ''workspaceFolders'' = Some (JArr (JObj w # rest)) \<and>
        d' = JObj (AList.update ''workspaceFolders''
                    (JArr (JObj (AList.update k v w) # rest)) kvs)"
proof -
  from assms obtain ws w0 w0' where
    ws: "getitem_str (JObj kvs) ''workspaceFolders'' = Inr ws" and
    w0: "getitem_int ws 0 = Inr w0" and
    w0': "setitem_str w0 k v = Inr w0'" and
    d': "(case ws of JArr xs \<Rightarrow> setitem_str (JObj kvs) ''workspaceFolders'' (JArr (xs[0 := w0']))
        | _ \<Rightarrow> Inl TypeError) = Inr d'"
    unfolding setitem_workspace_folder0_def and_then_Inr by blast
  from w0' obtain w where w: "w0 = JObj w" "w0' = JObj (AList.update k v w)"
    by (auto simp: setitem_str_Inr)
  from d' obtain xs where xs: "ws = JArr xs"
    by (cases ws) auto
  from w0 xs w obtain rest where rest: "xs = JObj w # rest"
    by (cases xs) (auto simp: seq_at_def)
  from ws have "map_of kvs ''workspaceFolders'' = Some ws"
    by (auto split: option.splits)
  with d' xs rest w show ?thesis by auto
qed

lemma setitem_workspace_folder0_eval:
  "map_of kvs ''workspaceFolders'' = Some (JArr (JObj w # rest)) \<Longrightarrow>
   setitem_workspace_folder0 (JObj kvs) k v =
     Inr (JObj (AList.update ''workspaceFolders''
                    (JArr (JObj (AList.update k v w) # rest)) kvs))"
  by (simp add: setitem_workspace_folder0_def and_then_def seq_at_def)

lemma as_uri_Inr: "as_uri h p = Inr u \<longleftrightarrow> is_absolute h p \<and> u = uri_of h p"
  by (auto simp: as_uri_def)

lemma get_initialize_params_InrD:
  assumes "get_initialize_params h p = Inr r" and "initialize_params_json h = Inr d"
  shows "sentinels_present d \<and> field d ''_description'' \<noteq> None \<and> is_absolute h p"
  using assms unfolding get_initialize_params_def
  apply (simp add: and_then_Inr py_assert_Inr delitem_str_Inr setitem_str_Inr getitem_str_Inr as_uri_Inr)
  apply (elim exE conjE)
  apply (simp add: update_conv' delete_conv')
  apply (drule setitem_workspace_folder0_InrD)
  apply (clarsimp simp: update_conv' delete_conv' seq_at_def sentinels_present_def first_workspace_folder_def)
  done

lemma get_initialize_params_eval:
  assumes "initialize_params_json h = Inr (JObj kvs)"
    and "map_of kvs ''_description'' = Some x"
    and "map_of kvs ''rootPath'' = Some (JStr ''$rootPath'')"
    and "map_of kvs ''rootUri'' = Some (JStr ''$rootUri'')"
    and "map_of kvs ''workspaceFolders'' = Some (JArr (JObj w # rest))"
    and "map_of w ''uri'' = Some (JStr ''$uri'')"
    and "map_of w ''name'' = Some (JStr ''$name'')"
    and "is_absolute h p"
  shows "get_initialize_params h p =
      Inr (JObj (AList.update ''workspaceFolders''
                   (JArr (JObj (AList.update ''name'' (JStr (basename h p))
                                 (AList.update ''uri'' (JStr (uri_of h p)) w)) # rest))
                   (AList.update ''rootUri'' (JStr (uri_of h p))
                     (AList.update ''rootPath'' (JStr p)
                       (AList.update ''processId'' (JInt (getpid h))
                         (AList.delete ''_description'' kvs))))))"
  using assms unfolding get_initialize_params_def
  by (simp add: and_then_def py_assert_def as_uri_def update_conv' delete_conv'
      setitem_workspace_folder0_eval getitem_int_Cons0 seq_at_def)



lemma install_existing: "existing (snd (install h ds w)) = existing w"
  by (induction ds arbitrary: w) (auto simp: Let_def split: sum.splits run_result.splits)

lemma install_nil_spawned: "install h [] w = (Inr (), w)"
  by simp

lemma setup_existing_unchanged:
  "ruby_ls_dir h \<in> existing w \<Longrightarrow> snd (setup_runtime_dependencies h w) = w"
  by (auto simp: setup_runtime_dependencies_def split: sum.splits)

lemma install_existingD: "install h ds w = (r, w') \<Longrightarrow> existing w' = existing w"
  using install_existing[of h ds w] by simp

lemma world_update_absorb:
  "existing v = X \<union> M \<Longrightarrow> v\<lparr>existing := existing v \<union> M\<rparr> = v"
  by (cases v) auto

lemma setup_raised_at_makedirs:
  assumes "makedirs h (ruby_ls_dir h) = (made, Some e)"
    and "setup_runtime_dependencies h w = (r, w')"
    and "ruby_ls_dir h \<notin> existing w" and "w' \<noteq> w"
    and "ruby_ls_dir h \<notin> existing v"
  shows "setup_runtime_dependencies h v = (Inl e, v\<lparr>existing := existing v \<union> set made\<rparr>)"
    and "w' = w\<lparr>existing := existing w \<union> set made\<rparr>"
  using assms
  by (auto simp: setup_runtime_dependencies_def split: sum.splits if_splits)

lemma setup_world_cases:
  "snd (setup_runtime_dependencies h w) = w \<or>
   ruby_ls_dir h \<in> existing (snd (setup_runtime_dependencies h w)) \<or>
   (\<exists>made e. makedirs h (ruby_ls_dir h) = (made, Some e) \<and>
      snd (setup_runtime_dependencies h w) = w\<lparr>existing := existing w \<union> set made\<rparr>)"
  by (auto simp: setup_runtime_dependencies_def Let_def split: sum.splits prod.splits
      option.splits dest!: install_existingD)

lemma setup_spawned_cases:
  "spawned (snd (setup_runtime_dependencies h w)) = spawned w \<or>
   ruby_ls_dir h \<in> existing (snd (setup_runtime_dependencies h w))"
  using setup_world_cases [of h w] by auto

lemma setup_twice:
  "snd (setup_runtime_dependencies h (snd (setup_runtime_dependencies h w))) =
     snd (setup_runtime_dependencies h w)"
proof -
  let ?w' = "snd (setup_runtime_dependencies h w)"
  consider "?w' = w" | "ruby_ls_dir h \<in> existing ?w'"
    | "?w' \<noteq> w" and "ruby_ls_dir h \<notin> existing ?w'"
    by blast
  then show ?thesis
  proof cases
    case 1
    then show ?thesis by simp
  next
    case 2
    then show ?thesis by (rule setup_existing_unchanged)
  next
    case 3
    from 3 setup_world_cases [of h w] obtain made e where
      m: "makedirs h (ruby_ls_dir h) = (made, Some e)"
      by blast
    have run: "setup_runtime_dependencies h w = (fst (setup_runtime_dependencies h w), ?w')"
      by simp
    have out: "ruby_ls_dir h \<notin> existing w"
      using 3(1) setup_existing_unchanged [of h w] by blast
    note f = setup_raised_at_makedirs [OF m run out 3(1)]
    have w': "?w' = w\<lparr>existing := existing w \<union> set made\<rparr>"
      by (rule f(2)) (rule out)
    have "setup_runtime_dependencies h ?w' = (Inl e, ?w'\<lparr>existing := existing ?w' \<union> set made\<rparr>)"
      by (rule f(1)) (rule 3(2))
    then have "snd (setup_runtime_dependencies h ?w') = ?w'\<lparr>existing := existing ?w' \<union> set made\<rparr>"
      by simp
    also have "\<dots> = ?w'"
      by (rule world_update_absorb) (subst w', simp)
    finally show ?thesis .
  qed
qed

lemma setup_returns_command:
  "setup_runtime_dependencies h w = (Inr c, w') \<Longrightarrow> c = ruby_lsp_command"
  by (auto simp: setup_runtime_dependencies_def Let_def
      split: sum.splits prod.splits if_splits option.splits)


lemma install_succeeds:
  assumes "list_all (\<lambda>dependency.
                      case getitem_str dependency ''command'' of
                        Inl e \<Rightarrow> False
                      | Inr command \<Rightarrow> subprocess_run h command = Exited 0) ds"
    and "ds = [] \<or> (case pw_name h of Inl e \<Rightarrow> False | Inr user \<Rightarrow> True)"
  shows "fst (install h ds w) = Inr ()"
  using assms
  by (induction ds arbitrary: w) (auto simp: Let_def split: sum.splits run_result.splits)

section \<open>The properties\<close>

text \<open>
  C2. For every template in which a sentinel field (\<open>rootPath\<close>, \<open>rootUri\<close>, the \<open>uri\<close> or the
  \<open>name\<close> of the first workspace folder) is missing or differs from its sentinel string,
  \<open>_get_initialize_params\<close> raises: it returns no parameter tree, so none that is
  substituted in part.
\<close>

theorem get_initialize_params_sentinel_mismatch_raises:
  assumes "initialize_params_json h = Inr d" and "\<not> sentinels_present d"
  shows "\<exists>e. get_initialize_params h p = Inl e"
proof (cases "get_initialize_params h p")
  case (Inl e)
  then show ?thesis by blast
next
  case (Inr r)
  with assms(1) have "sentinels_present d"
    using get_initialize_params_InrD by blast
  with assms(2) show ?thesis by simp
qed

theorem get_initialize_params_sentinel_mismatch_raises_witness:
  "initialize_params_json (example_host\<lparr>initialize_params_json := Inr mutated_template\<rparr>)
     = Inr mutated_template \<and>
   \<not> sentinels_present mutated_template \<and>
   (\<exists>e. get_initialize_params
          (example_host\<lparr>initialize_params_json := Inr mutated_template\<rparr>) ''/home/dev/todo''
        = Inl e)"
proof -
  have h1: "initialize_params_json (example_host\<lparr>initialize_params_json := Inr mutated_template\<rparr>)
     = Inr mutated_template"
    by simp
  have h2: "\<not> sentinels_present mutated_template"
    by (simp add: sentinels_present_def mutated_template_def)
  from get_initialize_params_sentinel_mismatch_raises [OF h1 h2, of "''/home/dev/todo''"] h1 h2
  show ?thesis by blast
qed


text \<open>
  C3. For every absolute repository path, when the template carries every sentinel (and the
  key \<open>_description\<close>, which is deleted first), \<open>_get_initialize_params\<close> returns the template
  with \<open>processId\<close> set to the process id, \<open>rootPath\<close> set to the path, \<open>rootUri\<close> and the
  \<open>uri\<close> of the first workspace folder set to the file URI of the path, and the \<open>name\<close> of the
  first workspace folder set to the base name of the path. Everything else in the template
  is as it was, but for the deleted \<open>_description\<close>.
\<close>

theorem get_initialize_params_substitutes:
  assumes "initialize_params_json h = Inr d"
    and "field d ''_description'' \<noteq> None"
    and "sentinels_present d"
    and "is_absolute h p"
  shows "\<exists>d' w w' rest.
      get_initialize_params h p = Inr d' \<and>
      field d' ''processId'' = Some (JInt (getpid h)) \<and>
      field d' ''rootPath'' = Some (JStr p) \<and>
      field d' ''rootUri'' = Some (JStr (uri_of h p)) \<and>
      field d ''workspaceFolders'' = Some (JArr (w # rest)) \<and>
      field d' ''workspaceFolders'' = Some (JArr (w' # rest)) \<and>
      field w' ''uri'' = Some (JStr (uri_of h p)) \<and>
      field w' ''name'' = Some (JStr (basename h p)) \<and>
      (\<forall>k. k \<noteq> ''uri'' \<and> k \<noteq> ''name'' \<longrightarrow> field w' k = field w k) \<and>
      field d' ''_description'' = None \<and>
      (\<forall>k. k \<notin> {''_description'', ''processId'', ''rootPath'', ''rootUri'', ''workspaceFolders''}
           \<longrightarrow> field d' k = field d k)"
proof -
  from assms(3) obtain kvs where d: "d = JObj kvs"
    by (cases d) (auto simp: sentinels_present_def)
  from assms(2) d obtain x where x: "map_of kvs ''_description'' = Some x"
    by auto
  from assms(3) d obtain w0 rest where ws: "map_of kvs ''workspaceFolders'' = Some (JArr (w0 # rest))"
    and w0: "field w0 ''uri'' = Some (JStr ''$uri'')" "field w0 ''name'' = Some (JStr ''$name'')"
    by (auto simp: sentinels_present_def first_workspace_folder_def
        split: option.splits json.splits list.splits)
  from w0 obtain w where w: "w0 = JObj w"
    by (cases w0) auto
  from assms(3) d have rp: "map_of kvs ''rootPath'' = Some (JStr ''$rootPath'')"
    and ru: "map_of kvs ''rootUri'' = Some (JStr ''$rootUri'')"
    by (auto simp: sentinels_present_def)
  from w0 w have wu: "map_of w ''uri'' = Some (JStr ''$uri'')"
    and wn: "map_of w ''name'' = Some (JStr ''$name'')"
    by auto
  note r = get_initialize_params_eval [OF assms(1)[unfolded d] x rp ru ws[unfolded w] wu wn assms(4)]
  show ?thesis
    apply (rule exI[of _ "JObj (AList.update ''workspaceFolders''
                   (JArr (JObj (AList.update ''name'' (JStr (basename h p))
                                 (AList.update ''uri'' (JStr (uri_of h p)) w)) # rest))
                   (AList.update ''rootUri'' (JStr (uri_of h p))
                     (AList.update ''rootPath'' (JStr p)
                       (AList.update ''processId'' (JInt (getpid h))
                         (AList.delete ''_description'' kvs)))))"])
    apply (rule exI[of _ "JObj w"])
    apply (rule exI[of _ "JObj (AList.update ''name'' (JStr (basename h p))
                                 (AList.update ''uri'' (JStr (uri_of h p)) w))"])
    apply (rule exI[of _ rest])
    using r d ws w
    apply (simp add: update_conv' delete_conv')
    done
qed

lemma example_initialize_params:
  "get_initialize_params example_host ''/home/dev/todo'' =
     Inr (JObj [(''processId'', JInt 4242),
                (''rootPath'', JStr ''/home/dev/todo''),
                (''rootUri'', JStr ''file:///home/dev/todo''),
                (''capabilities'', JObj []),
                (''workspaceFolders'',
                   JArr [JObj [(''uri'', JStr ''file:///home/dev/todo''),
                               (''name'', JStr ''todo'')]])])"
  by (simp add: get_initialize_params_def example_host_def example_template_def and_then_def
      py_assert_def as_uri_def setitem_workspace_folder0_def Let_def seq_at_def)

theorem get_initialize_params_substitutes_witness:
  "initialize_params_json example_host = Inr example_template \<and>
   field example_template ''_description'' \<noteq> None \<and>
   sentinels_present example_template \<and>
   is_absolute example_host ''/home/dev/todo'' \<and>
   (\<exists>d' w'.
      get_initialize_params example_host ''/home/dev/todo'' = Inr d' \<and>
      field d' ''processId'' = Some (JInt 4242) \<and>
      field d' ''rootPath'' = Some (JStr ''/home/dev/todo'') \<and>
      field d' ''rootUri'' = Some (JStr ''file:///home/dev/todo'') \<and>
      field d' ''workspaceFolders'' = Some (JArr [w']) \<and>
      field w' ''uri'' = Some (JStr ''file:///home/dev/todo'') \<and>
      field w' ''name'' = Some (JStr ''todo'') \<and>
      field d' ''_description'' = None)"
proof -
  have h1: "initialize_params_json example_host = Inr example_template"
    by (simp add: example_host_def)
  have h2: "field example_template ''_description'' \<noteq> None"
    by (simp add: example_template_def)
  have h3: "sentinels_present example_template"
    by (simp add: sentinels_present_def first_workspace_folder_def example_template_def)
  have h4: "is_absolute example_host ''/home/dev/todo''"
    by (simp add: example_host_def)
  have ws: "field example_template ''workspaceFolders''
      = Some (JArr [JObj [(''uri'', JStr ''$uri''), (''name'', JStr ''$name'')]])"
    by (simp add: example_template_def)
  have vals: "getpid example_host = 4242"
    "uri_of example_host ''/home/dev/todo'' = ''file:///home/dev/todo''"
    "basename example_host ''/home/dev/todo'' = ''todo''"
    by (simp_all add: example_host_def)
  from get_initialize_params_substitutes [OF h1 h2 h3 h4]
  obtain d' w w' rest where
    f1: "get_initialize_params example_host ''/home/dev/todo'' = Inr d'" and
    f2: "field d' ''processId'' = Some (JInt (getpid example_host))" and
    f3: "field d' ''rootPath'' = Some (JStr ''/home/dev/todo'')" and
    f4: "field d' ''rootUri'' = Some (JStr (uri_of example_host ''/home/dev/todo''))" and
    f5: "field example_template ''workspaceFolders'' = Some (JArr (w # rest))" and
    f6: "field d' ''workspaceFolders'' = Some (JArr (w' # rest))" and
    f7: "field w' ''uri'' = Some (JStr (uri_of example_host ''/home/dev/todo''))" and
    f8: "field w' ''name'' = Some (JStr (basename example_host ''/home/dev/todo''))" and
    f9: "field d' ''_description'' = None"
    by (elim exE conjE) (rule that)
  from f5 ws have rest: "rest = []" by simp
  have "get_initialize_params example_host ''/home/dev/todo'' = Inr d' \<and>
      field d' ''processId'' = Some (JInt 4242) \<and>
      field d' ''rootPath'' = Some (JStr ''/home/dev/todo'') \<and>
      field d' ''rootUri'' = Some (JStr ''file:///home/dev/todo'') \<and>
      field d' ''workspaceFolders'' = Some (JArr [w']) \<and>
      field w' ''uri'' = Some (JStr ''file:///home/dev/todo'') \<and>
      field w' ''name'' = Some (JStr ''todo'') \<and>
      field d' ''_description'' = None"
    using f1 f2 f3 f4 f6 f7 f8 f9 rest vals by simp
  then have "\<exists>d' w'.
      get_initialize_params example_host ''/home/dev/todo'' = Inr d' \<and>
      field d' ''processId'' = Some (JInt 4242) \<and>
      field d' ''rootPath'' = Some (JStr ''/home/dev/todo'') \<and>
      field d' ''rootUri'' = Some (JStr ''file:///home/dev/todo'') \<and>
      field d' ''workspaceFolders'' = Some (JArr [w']) \<and>
      field w' ''uri'' = Some (JStr ''file:///home/dev/todo'') \<and>
      field w' ''name'' = Some (JStr ''todo'') \<and>
      field d' ''_description'' = None"
    by (intro exI)
  then show ?thesis
    by (rule conjI [OF h1 conjI [OF h2 conjI [OF h3 conjI [OF h4]]]])
qed

text \<open>
  C4. Bootstrapping is idempotent. If the installation directory exists,
  \<open>setup_runtime_dependencies\<close> starts no install process and changes no path. After one call
  a second call on the same host changes nothing; and whatever the host of the second call,
  as long as the directory is the same, at most one of the two calls starts install
  processes.
\<close>

theorem setup_runtime_dependencies_idempotent:
  "(ruby_ls_dir h \<in> existing w \<longrightarrow> snd (setup_runtime_dependencies h w) = w) \<and>
   snd (setup_runtime_dependencies h (snd (setup_runtime_dependencies h w))) =
     snd (setup_runtime_dependencies h w) \<and>
   (\<forall>h'. ruby_ls_dir h' = ruby_ls_dir h \<longrightarrow>
      spawned (snd (setup_runtime_dependencies h' (snd (setup_runtime_dependencies h w)))) =
        spawned (snd (setup_runtime_dependencies h w)) \<or>
      spawned (snd (setup_runtime_dependencies h w)) = spawned w)"
proof (intro conjI allI impI)
  show "snd (setup_runtime_dependencies h w) = w" if "ruby_ls_dir h \<in> existing w"
    using that by (rule setup_existing_unchanged)
  show "snd (setup_runtime_dependencies h (snd (setup_runtime_dependencies h w))) =
     snd (setup_runtime_dependencies h w)"
    by (rule setup_twice)
  show "spawned (snd (setup_runtime_dependencies h' (snd (setup_runtime_dependencies h w)))) =
        spawned (snd (setup_runtime_dependencies h w)) \<or>
      spawned (snd (setup_runtime_dependencies h w)) = spawned w"
    if "ruby_ls_dir h' = ruby_ls_dir h" for h'
    using setup_spawned_cases [of h w]
      setup_existing_unchanged [of h' "snd (setup_runtime_dependencies h w)"] that
    by auto
qed

lemma example_setup:
  "setup_runtime_dependencies example_host example_world =
     (Inr ''bundle exec ruby-lsp'', populated_world)"
  by (simp add: setup_runtime_dependencies_def example_host_def example_world_def
      populated_world_def example_manifest_def valid_platforms_def ruby_lsp_command_def Let_def
      insert_commute)

theorem setup_runtime_dependencies_idempotent_witness:
  "ruby_ls_dir example_host \<in> existing populated_world \<and>
   snd (setup_runtime_dependencies example_host populated_world) = populated_world \<and>
   snd (setup_runtime_dependencies example_host
          (snd (setup_runtime_dependencies example_host example_world))) = populated_world"
proof -
  have h: "ruby_ls_dir example_host \<in> existing populated_world"
    by (simp add: example_host_def populated_world_def)
  have first: "snd (setup_runtime_dependencies example_host example_world) = populated_world"
    by (simp add: example_setup)
  note t1 = setup_runtime_dependencies_idempotent [of example_host populated_world]
  note t2 = setup_runtime_dependencies_idempotent [of example_host example_world]
  have one: "snd (setup_runtime_dependencies example_host populated_world) = populated_world"
    using conjunct1 [OF t1] h by (rule mp)
  have two: "snd (setup_runtime_dependencies example_host
          (snd (setup_runtime_dependencies example_host example_world))) = populated_world"
    using conjunct1 [OF conjunct2 [OF t2]] first by simp
  show ?thesis
    by (rule conjI [OF h conjI [OF one two]])
qed

text \<open>
  C8. The launch command that \<open>setup_runtime_dependencies\<close> returns is the constant
  \<open>bundle exec ruby-lsp\<close>, whatever the platform, the manifest and its dependency entries,
  and whether this call installed or not. The call returns on a supported platform whenever
  the manifest carries \<open>_description\<close>, \<open>bundle\<close> and \<open>gem\<close> are found, and the directory
  exists, or \<open>os.makedirs\<close> makes it without an exception and every install command can be
  run.
\<close>

theorem setup_runtime_dependencies_returns_constant:
  "(\<forall>c w'. setup_runtime_dependencies h w = (Inr c, w') \<longrightarrow> c = ''bundle exec ruby-lsp'') \<and>
   (get_platform_id h = Inr pl \<and> pl \<in> set valid_platforms \<and>
    runtime_dependencies_json h = Inr d \<and> field d ''_description'' \<noteq> None \<and>
    which h ''bundle'' \<and> which h ''gem'' \<and>
    (ruby_ls_dir h \<in> existing w \<or>
     snd (makedirs h (ruby_ls_dir h)) = None \<and> installable h d)
    \<longrightarrow> fst (setup_runtime_dependencies h w) = Inr ''bundle exec ruby-lsp'')"
proof (intro conjI allI impI)
  fix c w'
  assume "setup_runtime_dependencies h w = (Inr c, w')"
  then show "c = ''bundle exec ruby-lsp''"
    using setup_returns_command by (simp add: ruby_lsp_command_def)
next
  assume a: "get_platform_id h = Inr pl \<and> pl \<in> set valid_platforms \<and>
    runtime_dependencies_json h = Inr d \<and> field d ''_description'' \<noteq> None \<and>
    which h ''bundle'' \<and> which h ''gem'' \<and>
    (ruby_ls_dir h \<in> existing w \<or>
     snd (makedirs h (ruby_ls_dir h)) = None \<and> installable h d)"
  then obtain kvs x where d: "d = JObj kvs" "map_of kvs ''_description'' = Some x"
    by (cases d) auto
  show "fst (setup_runtime_dependencies h w) = Inr ''bundle exec ruby-lsp''"
  proof (cases "ruby_ls_dir h \<in> existing w")
    case True
    with a d show ?thesis
      by (simp add: setup_runtime_dependencies_def ruby_lsp_command_def)
  next
    case False
    with a have inst: "installable h d" and "snd (makedirs h (ruby_ls_dir h)) = None"
      by blast+
    then obtain made where made: "makedirs h (ruby_ls_dir h) = (made, None)"
      by (cases "makedirs h (ruby_ls_dir h)") simp
    have get: "(case map_of (AList.delete ''_description'' kvs) ''runtimeDependencies'' of
                 None \<Rightarrow> JArr [] | Some v \<Rightarrow> v)
             = (case field d ''runtimeDependencies'' of None \<Rightarrow> JArr [] | Some v \<Rightarrow> v)"
      using d by (simp add: delete_conv')
    from inst obtain ds where ds:
      "py_iter (case field d ''runtimeDependencies'' of None \<Rightarrow> JArr [] | Some v \<Rightarrow> v) = Inr ds"
      "ds = [] \<or> (case pw_name h of Inl e \<Rightarrow> False | Inr user \<Rightarrow> True)"
      "list_all (\<lambda>dependency.
                      case getitem_str dependency ''command'' of
                        Inl e \<Rightarrow> False
                      | Inr command \<Rightarrow> subprocess_run h command = Exited 0) ds"
      by (auto simp: installable_def split: sum.splits)
    have "fst (install h ds
            (w\<lparr>existing := insert (ruby_ls_dir h) (existing w \<union> set made)\<rparr>)) = Inr ()"
      using install_succeeds [OF ds(3) ds(2)] .
    with a d False get ds(1) made show ?thesis
      by (auto simp: setup_runtime_dependencies_def ruby_lsp_command_def Let_def
          split: prod.splits sum.splits)
  qed
qed

theorem setup_runtime_dependencies_returns_constant_witness:
  "setup_runtime_dependencies example_host example_world =
     (Inr ''bundle exec ruby-lsp'', populated_world) \<and>
   get_platform_id example_host = Inr LINUX_x64 \<and>
   runtime_dependencies_json example_host = Inr example_manifest \<and>
   field example_manifest ''_description'' \<noteq> None \<and>
   which example_host ''bundle'' \<and> which example_host ''gem'' \<and>
   snd (makedirs example_host (ruby_ls_dir example_host)) = None \<and>
   installable example_host example_manifest \<and>
   fst (setup_runtime_dependencies example_host example_world) = Inr ''bundle exec ruby-lsp''"
proof -
  note t = setup_runtime_dependencies_returns_constant
             [of example_host example_world LINUX_x64 example_manifest]
  have h1: "get_platform_id example_host = Inr LINUX_x64"
    by (simp add: example_host_def)
  have h2: "LINUX_x64 \<in> set valid_platforms"
    by (simp add: valid_platforms_def)
  have h3: "runtime_dependencies_json example_host = Inr example_manifest"
    by (simp add: example_host_def)
  have h4: "field example_manifest ''_description'' \<noteq> None"
    by (simp add: example_manifest_def)
  have h5: "which example_host ''bundle''" and h6: "which example_host ''gem''"
    by (simp_all add: example_host_def)
  have h7: "installable example_host example_manifest"
    by (simp add: installable_def example_manifest_def example_host_def)
  have h8: "snd (makedirs example_host (ruby_ls_dir example_host)) = None"
    by (simp add: example_host_def)
  have r: "fst (setup_runtime_dependencies example_host example_world) = Inr ''bundle exec ruby-lsp''"
    using conjunct2 [OF t] h1 h2 h3 h4 h5 h6 h7 h8 by simp
  have e: "setup_runtime_dependencies example_host example_world =
     (Inr ''bundle exec ruby-lsp'', populated_world)"
    by (rule example_setup)
  show ?thesis
    by (rule conjI [OF e conjI [OF h1 conjI [OF h3 conjI [OF h4 conjI [OF h5 conjI [OF h6
          conjI [OF h8 conjI [OF h7 r]]]]]]]])
qed

text \<open>
  C9. A manifest with no key \<open>runtimeDependencies\<close> is not an error of its own, but the call
  can still raise. As stated, that the call does not raise, the property fails:
  on \<open>readonly_host\<close>, where the manifest has no dependency list and every check before
  line 79 passes, \<open>os.makedirs\<close> raises and so does \<open>setup_runtime_dependencies\<close>.
\<close>

theorem setup_runtime_dependencies_without_dependency_list_raises:
  "get_platform_id readonly_host = Inr LINUX_x64 \<and>
   LINUX_x64 \<in> set valid_platforms \<and>
   runtime_dependencies_json readonly_host = Inr bare_manifest \<and>
   field bare_manifest ''_description'' \<noteq> None \<and>
   field bare_manifest ''runtimeDependencies'' = None \<and>
   which readonly_host ''bundle'' \<and> which readonly_host ''gem'' \<and>
   ruby_ls_dir readonly_host \<notin> existing example_world \<and>
   setup_runtime_dependencies readonly_host example_world =
     (Inl (HostError ''PermissionError''), example_world)"
  by (simp add: setup_runtime_dependencies_def readonly_host_def bare_host_def example_host_def
      example_world_def bare_manifest_def valid_platforms_def)

text \<open>
  C9, as the code has it. When the manifest has no key \<open>runtimeDependencies\<close> (and the call
  gets that far: the platform is supported, the manifest carries \<open>_description\<close>, \<open>bundle\<close>
  and \<open>gem\<close> are found), the dependency list is empty and no install command is run. If
  the installation directory exists, the launch command is returned and nothing has
  changed. If it does not exist and \<open>os.makedirs\<close> makes it, the launch command is returned
  and the directory exists afterwards, with the parents that \<open>os.makedirs\<close> made. The only
  exception of the call is that of \<open>os.makedirs\<close>.
\<close>

theorem setup_runtime_dependencies_without_dependency_list:
  assumes "get_platform_id h = Inr pl" and "pl \<in> set valid_platforms"
    and "runtime_dependencies_json h = Inr d"
    and "field d ''_description'' \<noteq> None"
    and "field d ''runtimeDependencies'' = None"
    and "which h ''bundle''" and "which h ''gem''"
  shows "spawned (snd (setup_runtime_dependencies h w)) = spawned w \<and>
         (ruby_ls_dir h \<in> existing w \<longrightarrow>
            setup_runtime_dependencies h w = (Inr ''bundle exec ruby-lsp'', w)) \<and>
         (ruby_ls_dir h \<notin> existing w \<and> makedirs h (ruby_ls_dir h) = (made, None) \<longrightarrow>
            setup_runtime_dependencies h w =
              (Inr ''bundle exec ruby-lsp'',
               w\<lparr>existing := insert (ruby_ls_dir h) (existing w \<union> set made)\<rparr>)) \<and>
         (ruby_ls_dir h \<notin> existing w \<and> makedirs h (ruby_ls_dir h) = (made, Some e) \<longrightarrow>
            setup_runtime_dependencies h w =
              (Inl e, w\<lparr>existing := existing w \<union> set made\<rparr>))"
proof -
  from assms(4) obtain kvs x where d: "d = JObj kvs" "map_of kvs ''_description'' = Some x"
    by (cases d) auto
  from assms(5) d have nodeps: "map_of kvs ''runtimeDependencies'' = None" by simp
  have one: "spawned (snd (setup_runtime_dependencies h w)) = spawned w"
    using assms(1,2,3,6,7) d nodeps
    by (auto simp: setup_runtime_dependencies_def Let_def delete_conv'
        split: prod.splits option.splits)
  have two: "ruby_ls_dir h \<in> existing w \<longrightarrow>
      setup_runtime_dependencies h w = (Inr ''bundle exec ruby-lsp'', w)"
    using assms(1,2,3,6,7) d nodeps
    by (simp add: setup_runtime_dependencies_def delete_conv' ruby_lsp_command_def)
  have three: "ruby_ls_dir h \<notin> existing w \<and> makedirs h (ruby_ls_dir h) = (made, None) \<longrightarrow>
      setup_runtime_dependencies h w =
        (Inr ''bundle exec ruby-lsp'',
         w\<lparr>existing := insert (ruby_ls_dir h) (existing w \<union> set made)\<rparr>)"
    using assms(1,2,3,6,7) d nodeps
    by (simp add: setup_runtime_dependencies_def Let_def delete_conv' ruby_lsp_command_def)
  have four: "ruby_ls_dir h \<notin> existing w \<and> makedirs h (ruby_ls_dir h) = (made, Some e) \<longrightarrow>
      setup_runtime_dependencies h w = (Inl e, w\<lparr>existing := existing w \<union> set made\<rparr>)"
    using assms(1,2,3,6,7) d nodeps
    by (simp add: setup_runtime_dependencies_def delete_conv')
  show ?thesis
    by (rule conjI [OF one conjI [OF two conjI [OF three four]]])
qed

theorem setup_runtime_dependencies_without_dependency_list_witness:
  "get_platform_id bare_host = Inr LINUX_x64 \<and>
   runtime_dependencies_json bare_host = Inr bare_manifest \<and>
   field bare_manifest ''_description'' \<noteq> None \<and>
   field bare_manifest ''runtimeDependencies'' = None \<and>
   which bare_host ''bundle'' \<and> which bare_host ''gem'' \<and>
   ruby_ls_dir bare_host \<in> existing populated_world \<and>
   setup_runtime_dependencies bare_host populated_world =
     (Inr ''bundle exec ruby-lsp'', populated_world) \<and>
   ruby_ls_dir bare_host \<notin> existing example_world \<and>
   makedirs bare_host (ruby_ls_dir bare_host) = ([''/opt/multilspy/static''], None) \<and>
   setup_runtime_dependencies bare_host example_world =
     (Inr ''bundle exec ruby-lsp'',
      \<lparr>existing = {''/opt/multilspy'', ''/opt/multilspy/static'',
                   ''/opt/multilspy/static/ruby-lsp''},
       spawned = []\<rparr>) \<and>
   makedirs readonly_host (ruby_ls_dir readonly_host) = ([], Some (HostError ''PermissionError'')) \<and>
   fst (setup_runtime_dependencies readonly_host example_world) =
     Inl (HostError ''PermissionError'') \<and>
   spawned (snd (setup_runtime_dependencies readonly_host example_world)) = []"
  (is "?h1 \<and> ?h3 \<and> ?h4 \<and> ?h5 \<and> ?h6 \<and> ?h7 \<and> ?p1 \<and> ?r1 \<and> ?p2 \<and> ?m2 \<and> ?r2 \<and> ?m3 \<and> ?r3 \<and> ?r4")
proof -
  have h1: ?h1 by (simp add: bare_host_def example_host_def)
  have h2: "LINUX_x64 \<in> set valid_platforms" by (simp add: valid_platforms_def)
  have h3: ?h3 by (simp add: bare_host_def)
  have h4: ?h4 by (simp add: bare_manifest_def)
  have h5: ?h5 by (simp add: bare_manifest_def)
  have h6: ?h6 and h7: ?h7 by (simp_all add: bare_host_def example_host_def)
  have g1: "get_platform_id readonly_host = Inr LINUX_x64"
    by (simp add: readonly_host_def bare_host_def example_host_def)
  have g3: "runtime_dependencies_json readonly_host = Inr bare_manifest"
    by (simp add: readonly_host_def bare_host_def)
  have g6: "which readonly_host ''bundle''" and g7: "which readonly_host ''gem''"
    by (simp_all add: readonly_host_def bare_host_def example_host_def)
  have p1: ?p1 by (simp add: bare_host_def example_host_def populated_world_def)
  have p2: ?p2 by (simp add: bare_host_def example_host_def example_world_def)
  have p3: "ruby_ls_dir readonly_host \<notin> existing example_world"
    by (simp add: readonly_host_def bare_host_def example_host_def example_world_def)
  have m2: ?m2 by (simp add: bare_host_def example_host_def)
  have m3: ?m3 by (simp add: readonly_host_def)
  note t1 = setup_runtime_dependencies_without_dependency_list
      [OF h1 h2 h3 h4 h5 h6 h7, of populated_world]
  note t2 = setup_runtime_dependencies_without_dependency_list
      [OF h1 h2 h3 h4 h5 h6 h7, of example_world "[''/opt/multilspy/static'']"]
  note t3 = setup_runtime_dependencies_without_dependency_list
      [OF g1 h2 g3 h4 h5 g6 g7, of example_world "[]" "HostError ''PermissionError''"]
  have r1: ?r1 by (rule mp [OF conjunct1 [OF conjunct2 [OF t1]] p1])
  have "setup_runtime_dependencies bare_host example_world =
     (Inr ''bundle exec ruby-lsp'',
      example_world\<lparr>existing := insert (ruby_ls_dir bare_host)
         (existing example_world \<union> set [''/opt/multilspy/static''])\<rparr>)"
    by (rule mp [OF conjunct1 [OF conjunct2 [OF conjunct2 [OF t2]]] conjI [OF p2 m2]])
  then have r2: ?r2
    by (simp add: bare_host_def example_host_def example_world_def insert_commute)
  have f: "setup_runtime_dependencies readonly_host example_world =
     (Inl (HostError ''PermissionError''),
      example_world\<lparr>existing := existing example_world \<union> set []\<rparr>)"
    by (rule mp [OF conjunct2 [OF conjunct2 [OF conjunct2 [OF t3]]] conjI [OF p3 m3]])
  have r3: ?r3 using f by simp
  have r4: ?r4 using conjunct1 [OF t3] by (simp add: example_world_def)
  show ?thesis
    by (rule conjI [OF h1 conjI [OF h3 conjI [OF h4 conjI [OF h5 conjI [OF h6 conjI [OF h7
          conjI [OF p1 conjI [OF r1 conjI [OF p2 conjI [OF m2 conjI [OF r2 conjI [OF m3
          conjI [OF r3 r4]]]]]]]]]]]]])
qed

text \<open>
  C10. The key \<open>_description\<close> is mandatory in both JSON files. When the runtime dependency
  manifest lacks it, \<open>setup_runtime_dependencies\<close> raises, and has created no directory and
  run no command; when the initialize parameter template lacks it,
  \<open>_get_initialize_params\<close> raises.
\<close>

theorem description_key_is_mandatory:
  "(runtime_dependencies_json h = Inr d \<and> field d ''_description'' = None \<longrightarrow>
      (\<exists>e. setup_runtime_dependencies h w = (Inl e, w))) \<and>
   (initialize_params_json h = Inr d' \<and> field d' ''_description'' = None \<longrightarrow>
      (\<exists>e. get_initialize_params h p = Inl e))"
proof (intro conjI impI)
  assume a: "runtime_dependencies_json h = Inr d \<and> field d ''_description'' = None"
  then have "\<exists>e. delitem_str d ''_description'' = Inl e"
    by (cases d) auto
  with a show "\<exists>e. setup_runtime_dependencies h w = (Inl e, w)"
    by (auto simp: setup_runtime_dependencies_def split: sum.splits)
next
  assume a: "initialize_params_json h = Inr d' \<and> field d' ''_description'' = None"
  then have "\<exists>e. delitem_str d' ''_description'' = Inl e"
    by (cases d') auto
  with a show "\<exists>e. get_initialize_params h p = Inl e"
    by (auto simp: get_initialize_params_def and_then_def)
qed

theorem description_key_is_mandatory_witness:
  "runtime_dependencies_json
     (example_host\<lparr>runtime_dependencies_json := Inr undescribed_manifest,
                   initialize_params_json := Inr undescribed_template\<rparr>)
     = Inr undescribed_manifest \<and>
   field undescribed_manifest ''_description'' = None \<and>
   (\<exists>e. setup_runtime_dependencies
          (example_host\<lparr>runtime_dependencies_json := Inr undescribed_manifest,
                        initialize_params_json := Inr undescribed_template\<rparr>) example_world
        = (Inl e, example_world)) \<and>
   initialize_params_json
     (example_host\<lparr>runtime_dependencies_json := Inr undescribed_manifest,
                   initialize_params_json := Inr undescribed_template\<rparr>)
     = Inr undescribed_template \<and>
   field undescribed_template ''_description'' = None \<and>
   (\<exists>e. get_initialize_params
          (example_host\<lparr>runtime_dependencies_json := Inr undescribed_manifest,
                        initialize_params_json := Inr undescribed_template\<rparr>) ''/home/dev/todo''
        = Inl e)"
proof -
  note t = description_key_is_mandatory
    [of "example_host\<lparr>runtime_dependencies_json := Inr undescribed_manifest,
                       initialize_params_json := Inr undescribed_template\<rparr>"
        undescribed_manifest example_world undescribed_template "''/home/dev/todo''"]
  have h1: "runtime_dependencies_json
     (example_host\<lparr>runtime_dependencies_json := Inr undescribed_manifest,
                   initialize_params_json := Inr undescribed_template\<rparr>)
     = Inr undescribed_manifest"
    by simp
  have h2: "field undescribed_manifest ''_description'' = None"
    by (simp add: undescribed_manifest_def)
  have h3: "initialize_params_json
     (example_host\<lparr>runtime_dependencies_json := Inr undescribed_manifest,
                   initialize_params_json := Inr undescribed_template\<rparr>)
     = Inr undescribed_template"
    by simp
  have h4: "field undescribed_template ''_description'' = None"
    by (simp add: undescribed_template_def)
  have r1: "\<exists>e. setup_runtime_dependencies
          (example_host\<lparr>runtime_dependencies_json := Inr undescribed_manifest,
                        initialize_params_json := Inr undescribed_template\<rparr>) example_world
        = (Inl e, example_world)"
    using conjunct1 [OF t] conjI [OF h1 h2] by (rule mp)
  have r2: "\<exists>e. get_initialize_params
          (example_host\<lparr>runtime_dependencies_json := Inr undescribed_manifest,
                        initialize_params_json := Inr undescribed_template\<rparr>) ''/home/dev/todo''
        = Inl e"
    using conjunct2 [OF t] conjI [OF h3 h4] by (rule mp)
  show ?thesis
    by (rule conjI [OF h1 conjI [OF h2 conjI [OF r1 conjI [OF h3 conjI [OF h4 r2]]]]])
qed

section \<open>Lemmas on the session\<close>

lemma guarded_append:
  "guarded P Q seen (xs @ ys) = (guarded P Q seen xs \<and> guarded P Q (seen \<or> list_ex P xs) ys)"
  by (induction xs arbitrary: seen) auto

lemma guarded_none: "list_all (\<lambda>x. \<not> Q x) xs \<Longrightarrow> guarded P Q seen xs"
  by (induction xs arbitrary: seen) auto

lemma guarded_split:
  "guarded P Q seen xs \<Longrightarrow> xs = pre @ y # post \<Longrightarrow> Q y \<Longrightarrow> seen \<or> list_ex P pre"
  by (simp add: guarded_append)

lemma from_server_not_initialized: "from_server e \<Longrightarrow> \<not> initialized_sent e"
  by (cases e) auto

lemma from_server_not_answered: "from_server e \<Longrightarrow> \<not> initialize_answered e"
  by (cases e) auto

lemma from_server_not_yielded: "from_server e \<Longrightarrow> e \<noteq> Yielded"
  by (cases e) auto

lemma from_server_all_not_initialized:
  "list_all from_server ds \<Longrightarrow> list_all (\<lambda>e. \<not> initialized_sent e) ds"
  by (induction ds) (auto dest: from_server_not_initialized)

lemma from_server_no_answer: "list_all from_server ds \<Longrightarrow> \<not> list_ex initialize_answered ds"
  by (induction ds) (auto dest: from_server_not_answered)

lemma from_server_no_yield: "list_all from_server ds \<Longrightarrow> Yielded \<notin> set ds"
  by (induction ds) (auto dest: from_server_not_yielded)

lemma registry_ok_cong:
  "on_notification_handlers a' = on_notification_handlers a \<Longrightarrow>
   on_request_handlers a' = on_request_handlers a \<Longrightarrow> registry_ok a' = registry_ok a"
  by (simp add: registry_ok_def)

lemma handled_refl: "handled a a []"
  by (simp add: handled_def)

lemma handledD:
  assumes "handled a a' ds"
  shows "trace a' = trace a @ ds" and "list_all from_server ds"
    and "on_notification_handlers a' = on_notification_handlers a"
    and "on_request_handlers a' = on_request_handlers a"
    and "process_running a' = process_running a"
    and "repository_root_path a' = repository_root_path a"
    and "server_ready a \<Longrightarrow> server_ready a'"
    and "registry_ok a \<Longrightarrow> server_ready a' \<Longrightarrow> server_ready a \<or> list_ex test_passed ds"
  using assms by (simp_all add: handled_def)

lemma handled_registry: "handled a a' ds \<Longrightarrow> registry_ok a' = registry_ok a"
  by (rule registry_ok_cong) (simp_all add: handled_def)

lemma handled_trans:
  assumes ab: "handled a b ds" and bc: "handled b c ds'"
  shows "handled a c (ds @ ds')"
proof -
  have t: "trace c = trace a @ ds @ ds'"
    using handledD(1) [OF ab] handledD(1) [OF bc] by simp
  have fs: "list_all from_server (ds @ ds')"
    using handledD(2) [OF ab] handledD(2) [OF bc] by simp
  have n: "on_notification_handlers c = on_notification_handlers a"
    using handledD(3) [OF ab] handledD(3) [OF bc] by simp
  have q: "on_request_handlers c = on_request_handlers a"
    using handledD(4) [OF ab] handledD(4) [OF bc] by simp
  have p: "process_running c = process_running a"
    using handledD(5) [OF ab] handledD(5) [OF bc] by simp
  have rp: "repository_root_path c = repository_root_path a"
    using handledD(6) [OF ab] handledD(6) [OF bc] by simp
  have mono: "server_ready a \<longrightarrow> server_ready c"
    using handledD(7) [OF ab] handledD(7) [OF bc] by blast
  have just: "registry_ok a \<and> server_ready c \<longrightarrow>
      server_ready a \<or> list_ex test_passed (ds @ ds')"
  proof (intro impI, elim conjE)
    assume ok: "registry_ok a" and c: "server_ready c"
    from ok have okb: "registry_ok b" using handled_registry [OF ab] by simp
    from handledD(8) [OF bc okb c] have "server_ready b \<or> list_ex test_passed ds'" .
    then show "server_ready a \<or> list_ex test_passed (ds @ ds')"
    proof
      assume "server_ready b"
      from handledD(8) [OF ab ok this] show ?thesis by auto
    next
      assume "list_ex test_passed ds'"
      then show ?thesis by simp
    qed
  qed
  show ?thesis
    unfolding handled_def using t fs n q p rp mono just by simp
qed

lemma run_handler_window:
  "run_handler Window_log_message p a = (r, a') \<Longrightarrow>
     a' = a \<or> (a' = a\<lparr>server_ready := True\<rparr> \<and> finished_in p = Inr True)"
  by (cases "finished_in p") (auto simp: window_log_message_def split: if_splits)

lemma run_handler_other:
  "cb \<noteq> Window_log_message \<Longrightarrow> run_handler cb p a = (r, a') \<Longrightarrow> a' = a"
  by (cases cb) (simp_all add: do_nothing_def execute_client_command_handler_def)

lemma map_of_registry:
  "list_all (\<lambda>b. P (fst b) (snd b)) kvs \<Longrightarrow> map_of kvs m = Some cb \<Longrightarrow> P m cb"
  by (induction kvs) (auto split: if_splits)

lemma emit_handled: "from_server e \<Longrightarrow> handled a (emit e a) [e]"
  by (simp add: handled_def emit_def)

lemma emit_ready_handled:
  "from_server e \<Longrightarrow> registry_ok a \<longrightarrow> test_passed e \<Longrightarrow>
   handled a ((emit e a)\<lparr>server_ready := True\<rparr>) [e]"
  by (simp add: handled_def emit_def)

lemma finish_handler_handled:
  assumes "handled a b ds"
  shows "\<exists>ds'. handled a (finish_handler cb (r, b)) ds'"
proof (cases r)
  case (Inl err)
  have "handled b (emit (Handler_raised cb err) b) [Handler_raised cb err]"
    by (rule emit_handled) simp
  from handled_trans [OF assms this] Inl show ?thesis
    by (auto simp: finish_handler_def)
next
  case (Inr v)
  with assms show ?thesis by (auto simp: finish_handler_def)
qed

lemma notification_handled:
  assumes "map_of (on_notification_handlers a) method = Some cb"
    and "run_handler cb params (emit (Notified method cb params) a) = (r, b)"
  shows "handled a b [Notified method cb params]"
proof (cases "cb = Window_log_message")
  case True
  from assms(2) True
  have "b = emit (Notified method cb params) a \<or>
        (b = (emit (Notified method cb params) a)\<lparr>server_ready := True\<rparr> \<and>
         finished_in params = Inr True)"
    using run_handler_window by blast
  then show ?thesis
  proof (elim disjE conjE)
    assume "b = emit (Notified method cb params) a"
    then show ?thesis using emit_handled [of "Notified method cb params" a] by simp
  next
    assume b: "b = (emit (Notified method cb params) a)\<lparr>server_ready := True\<rparr>"
      and f: "finished_in params = Inr True"
    have "registry_ok a \<longrightarrow> test_passed (Notified method cb params)"
    proof
      assume "registry_ok a"
      then have "list_all (\<lambda>b. snd b = Window_log_message \<longrightarrow> fst b = ''window/logMessage'')
          (on_notification_handlers a)"
        by (simp add: registry_ok_def)
      from map_of_registry [of "\<lambda>m c. c = Window_log_message \<longrightarrow> m = ''window/logMessage''",
          OF this assms(1)] True f
      show "test_passed (Notified method cb params)" by simp
    qed
    with b show ?thesis
      using emit_ready_handled [of "Notified method cb params" a] by simp
  qed
next
  case False
  from run_handler_other [OF False assms(2)]
  show ?thesis using emit_handled [of "Notified method cb params" a] by simp
qed

lemma request_handled:
  assumes "map_of (on_request_handlers a) method = Some cb"
    and "run_handler cb params (emit (Requested method cb params) a) = (r, b)"
  shows "handled a b [Requested method cb params]"
proof (cases "cb = Window_log_message")
  case True
  have no: "\<not> registry_ok a"
  proof
    assume "registry_ok a"
    then have "list_all (\<lambda>b. snd b \<noteq> Window_log_message) (on_request_handlers a)"
      by (simp add: registry_ok_def)
    from map_of_registry [of "\<lambda>m c. c \<noteq> Window_log_message", OF this assms(1)] True
    show False by simp
  qed
  from assms(2) True
  have "b = emit (Requested method cb params) a \<or>
        (b = (emit (Requested method cb params) a)\<lparr>server_ready := True\<rparr> \<and>
         finished_in params = Inr True)"
    using run_handler_window by blast
  then show ?thesis
  proof (elim disjE conjE)
    assume "b = emit (Requested method cb params) a"
    then show ?thesis using emit_handled [of "Requested method cb params" a] by simp
  next
    assume b: "b = (emit (Requested method cb params) a)\<lparr>server_ready := True\<rparr>"
    with no show ?thesis
      using emit_ready_handled [of "Requested method cb params" a] by simp
  qed
next
  case False
  from run_handler_other [OF False assms(2)]
  show ?thesis using emit_handled [of "Requested method cb params" a] by simp
qed

lemma dispatch_handled: "\<exists>ds. handled a (dispatch m a) ds"
proof (cases m)
  case (Notification name params)
  show ?thesis
  proof (cases "map_of (on_notification_handlers a) name")
    case None
    have "handled a (emit (Unhandled (Notification name params)) a)
            [Unhandled (Notification name params)]"
      by (rule emit_handled) simp
    with Notification None show ?thesis by auto
  next
    case (Some cb)
    obtain r b where rb: "run_handler cb params (emit (Notified name cb params) a) = (r, b)"
      by (cases "run_handler cb params (emit (Notified name cb params) a)")
    from finish_handler_handled [OF notification_handled [OF Some rb], of cb r]
    show ?thesis using Notification Some rb by simp
  qed
next
  case (Request name params)
  show ?thesis
  proof (cases "map_of (on_request_handlers a) name")
    case None
    have "handled a (emit (Unhandled (Request name params)) a)
            [Unhandled (Request name params)]"
      by (rule emit_handled) simp
    with Request None show ?thesis by auto
  next
    case (Some cb)
    obtain r b where rb: "run_handler cb params (emit (Requested name cb params) a) = (r, b)"
      by (cases "run_handler cb params (emit (Requested name cb params) a)")
    from finish_handler_handled [OF request_handled [OF Some rb], of cb r]
    show ?thesis using Request Some rb by simp
  qed
qed

lemma dispatch_all_handled: "\<exists>ds. handled a (dispatch_all ms a) ds"
proof (induction ms arbitrary: a)
  case Nil
  show ?case using handled_refl by auto
next
  case (Cons m ms)
  obtain ds where d: "handled a (dispatch m a) ds"
    using dispatch_handled by blast
  obtain ds' where d': "handled (dispatch m a) (dispatch_all ms (dispatch m a)) ds'"
    using Cons.IH by blast
  from handled_trans [OF d d'] show ?case by auto
qed

lemma wait_ready_handled:
  "wait_ready ms a = (b, a') \<Longrightarrow> (\<exists>ds. handled a a' ds) \<and> b = server_ready a'"
proof (induction ms arbitrary: a)
  case Nil
  then show ?case using handled_refl by auto
next
  case (Cons m ms)
  show ?case
  proof (cases "server_ready a")
    case True
    with Cons.prems show ?thesis using handled_refl by auto
  next
    case False
    with Cons.prems have w: "wait_ready ms (dispatch m a) = (b, a')" by simp
    obtain ds where d: "handled a (dispatch m a) ds"
      using dispatch_handled by blast
    from Cons.IH [OF w] obtain ds' where d': "handled (dispatch m a) a' ds'"
      and b: "b = server_ready a'" by blast
    from handled_trans [OF d d'] b show ?thesis by auto
  qed
qed

lemma list_all_update:
  "list_all P kvs \<Longrightarrow> P (k, v) \<Longrightarrow> list_all P (AList.update k v kvs)"
  by (induction kvs) auto

lemma register_handlers_fields:
  "trace (register_handlers a) = trace a"
  "server_ready (register_handlers a) = server_ready a"
  "process_running (register_handlers a) = process_running a"
  "repository_root_path (register_handlers a) = repository_root_path a"
  by (simp_all add: register_handlers_def on_notification_def on_request_def)

lemma register_handlers_ok: "registry_ok a \<Longrightarrow> registry_ok (register_handlers a)"
  by (simp add: registry_ok_def register_handlers_def on_notification_def on_request_def
      list_all_update)

lemma send_request_Inl:
  "send_request m p arr (Inl e) a = (Inl e, dispatch_all arr (emit (Sent_request m p) a))"
  by (simp add: send_request_def Let_def)

lemma send_request_Inr:
  "send_request m p arr (Inr v) a =
     (Inr v, emit (Received_response m v) (dispatch_all arr (emit (Sent_request m p) a)))"
  by (simp add: send_request_def Let_def)

text \<open>What a run of the handshake leaves behind, whatever its outcome.\<close>

lemma handshake_shape:
  assumes "handshake h s a = (r, a')"
  shows "\<exists>evs. trace a' = trace a @ evs \<and>
      guarded initialize_answered initialized_sent False evs \<and>
      Yielded \<notin> set evs \<and>
      on_notification_handlers a' = on_notification_handlers a \<and>
      on_request_handlers a' = on_request_handlers a \<and>
      (server_ready a \<longrightarrow> server_ready a') \<and>
      (registry_ok a \<and> server_ready a' \<longrightarrow> server_ready a \<or> list_ex test_passed evs) \<and>
      (r = Completed \<longrightarrow> server_ready a' \<and> process_running a')"
proof (cases "start_failure s")
  case (Some e)
  with assms have "a' = a" and "r = Raised e"
    by (simp_all add: handshake_def server_start_def)
  then show ?thesis by simp
next
  case None
  define a1 where "a1 = emit Process_started (a\<lparr>process_running := True\<rparr>)"
  have st: "server_start (start_failure s) a = (Inr (), a1)"
    using None by (simp add: server_start_def a1_def)
  have a1: "trace a1 = trace a @ [Process_started]"
    "on_notification_handlers a1 = on_notification_handlers a"
    "on_request_handlers a1 = on_request_handlers a"
    "server_ready a1 = server_ready a" "process_running a1"
    "repository_root_path a1 = repository_root_path a"
    by (simp_all add: a1_def emit_def)
  have ok1: "registry_ok a1 = registry_ok a"
    by (rule registry_ok_cong) (simp_all add: a1)
  show ?thesis
  proof (cases "get_initialize_params h (repository_root_path a1)")
    case (Inl e)
    with assms st have "a' = a1" and "r = Raised e"
      by (simp_all add: handshake_def)
    with a1 show ?thesis by simp
  next
    case (Inr params)
    define a2 where "a2 = emit (Sent_request ''initialize'' params) a1"
    define a3 where "a3 = dispatch_all (arriving_initialize s) a2"
    obtain ds1 where h1: "handled a2 a3 ds1"
      unfolding a3_def using dispatch_all_handled by blast
    have a2: "trace a2 = trace a @ [Process_started, Sent_request ''initialize'' params]"
      "on_notification_handlers a2 = on_notification_handlers a"
      "on_request_handlers a2 = on_request_handlers a"
      "server_ready a2 = server_ready a" "process_running a2"
      by (simp_all add: a2_def emit_def a1)
    have ok2: "registry_ok a2 = registry_ok a"
      by (rule registry_ok_cong) (simp_all add: a2)
    have a3: "trace a3 = trace a @ [Process_started, Sent_request ''initialize'' params] @ ds1"
      "on_notification_handlers a3 = on_notification_handlers a"
      "on_request_handlers a3 = on_request_handlers a"
      "process_running a3"
      using handledD(1,3,4,5) [OF h1] a2 by simp_all
    have mono3: "server_ready a \<longrightarrow> server_ready a3"
      using handledD(7) [OF h1] a2 by simp
    have just3: "registry_ok a \<and> server_ready a3 \<longrightarrow> server_ready a \<or> list_ex test_passed ds1"
      using handledD(8) [OF h1] a2 ok2 by simp
    have ok3: "registry_ok a3 = registry_ok a"
      by (rule registry_ok_cong) (simp_all add: a3)
    note fs1 = handledD(2) [OF h1]
    show ?thesis
    proof (cases "initialize_result s")
      case (Inl e)
      with assms st Inr have "a' = a3" and "r = Raised e"
        by (simp_all add: handshake_def send_request_Inl a2_def a3_def)
      with a3 mono3 just3 fs1 show ?thesis
        by (simp add: guarded_none from_server_all_not_initialized from_server_no_yield)
    next
      case (Inr v)
      define a4 where "a4 = (send_notification ''initialized'' (JObj [])
          (emit (Received_response ''initialize'' v) a3))\<lparr>completions_available := True\<rparr>"
      obtain b a5 where w: "wait_ready (arriving_wait s) a4 = (b, a5)"
        by (cases "wait_ready (arriving_wait s) a4")
      from wait_ready_handled [OF w] obtain ds2 where h2: "handled a4 a5 ds2"
        and b: "b = server_ready a5" by blast
      have a4: "trace a4 = trace a @ [Process_started, Sent_request ''initialize'' params] @ ds1
            @ [Received_response ''initialize'' v, Sent_notification ''initialized'' (JObj [])]"
        "on_notification_handlers a4 = on_notification_handlers a"
        "on_request_handlers a4 = on_request_handlers a"
        "server_ready a4 = server_ready a3" "process_running a4"
        by (simp_all add: a4_def send_notification_def emit_def a3)
      have ok4: "registry_ok a4 = registry_ok a"
        by (rule registry_ok_cong) (simp_all add: a4)
      have a5: "trace a5 = trace a @ [Process_started, Sent_request ''initialize'' params] @ ds1
            @ [Received_response ''initialize'' v, Sent_notification ''initialized'' (JObj [])]
            @ ds2"
        "on_notification_handlers a5 = on_notification_handlers a"
        "on_request_handlers a5 = on_request_handlers a"
        "process_running a5"
        using handledD(1,3,4,5) [OF h2] a4 by simp_all
      have mono5: "server_ready a \<longrightarrow> server_ready a5"
        using handledD(7) [OF h2] a4 mono3 by simp
      have just5: "registry_ok a \<and> server_ready a5 \<longrightarrow>
          server_ready a \<or> list_ex test_passed ds1 \<or> list_ex test_passed ds2"
        using handledD(8) [OF h2] a4 ok4 just3 by blast
      note fs2 = handledD(2) [OF h2]
      from assms st \<open>get_initialize_params h (repository_root_path a1) = Inr params\<close> Inr w
      have res: "a' = a5" "r = (if b then Completed else Blocked)"
        by ((cases b; simp add: handshake_def send_request_Inr a2_def a3_def a4_def Let_def)+)
      have g: "guarded initialize_answered initialized_sent False
          ([Process_started, Sent_request ''initialize'' params] @ ds1
            @ [Received_response ''initialize'' v, Sent_notification ''initialized'' (JObj [])]
            @ ds2)"
        using fs1 fs2
        by (simp add: guarded_append guarded_none from_server_all_not_initialized)
      have ny: "Yielded \<notin> set ([Process_started, Sent_request ''initialize'' params] @ ds1
            @ [Received_response ''initialize'' v, Sent_notification ''initialized'' (JObj [])]
            @ ds2)"
        using fs1 fs2 by (simp add: from_server_no_yield)
      have just: "registry_ok a \<and> server_ready a5 \<longrightarrow> server_ready a \<or>
          list_ex test_passed ([Process_started, Sent_request ''initialize'' params] @ ds1
            @ [Received_response ''initialize'' v, Sent_notification ''initialized'' (JObj [])]
            @ ds2)"
        using just5 by simp
      have fin: "r = Completed \<longrightarrow> server_ready a5 \<and> process_running a5"
        using res(2) b a5(4) by (simp split: if_splits)
      have "trace a' = trace a @ ([Process_started, Sent_request ''initialize'' params] @ ds1
            @ [Received_response ''initialize'' v, Sent_notification ''initialized'' (JObj [])]
            @ ds2) \<and>
        guarded initialize_answered initialized_sent False
          ([Process_started, Sent_request ''initialize'' params] @ ds1
            @ [Received_response ''initialize'' v, Sent_notification ''initialized'' (JObj [])]
            @ ds2) \<and>
        Yielded \<notin> set ([Process_started, Sent_request ''initialize'' params] @ ds1
            @ [Received_response ''initialize'' v, Sent_notification ''initialized'' (JObj [])]
            @ ds2) \<and>
        on_notification_handlers a' = on_notification_handlers a \<and>
        on_request_handlers a' = on_request_handlers a \<and>
        (server_ready a \<longrightarrow> server_ready a') \<and>
        (registry_ok a \<and> server_ready a' \<longrightarrow> server_ready a \<or>
           list_ex test_passed ([Process_started, Sent_request ''initialize'' params] @ ds1
            @ [Received_response ''initialize'' v, Sent_notification ''initialized'' (JObj [])]
            @ ds2)) \<and>
        (r = Completed \<longrightarrow> server_ready a' \<and> process_running a')"
        unfolding res(1) using a5(1,2,3) g ny mono5 just fin by (intro conjI) simp_all
      then show ?thesis by (rule exI)
    qed
  qed
qed

text \<open>What the part after the \<open>yield\<close> leaves behind, whatever its outcome.\<close>

lemma after_yield_shape:
  assumes "after_yield s a = (r, a')"
  shows "\<exists>evs. trace a' = trace a @ Yielded # evs \<and>
      list_all (\<lambda>e. \<not> initialized_sent e) evs \<and>
      Yielded \<notin> set evs \<and>
      on_notification_handlers a' = on_notification_handlers a \<and>
      on_request_handlers a' = on_request_handlers a \<and>
      (server_ready a \<longrightarrow> server_ready a') \<and>
      (registry_ok a \<and> server_ready a' \<longrightarrow> server_ready a \<or> list_ex test_passed evs)"
proof -
  define a1 where "a1 = emit Yielded a"
  define a2 where "a2 = dispatch_all (arriving_body s) a1"
  obtain ds1 where h1: "handled a1 a2 ds1"
    unfolding a2_def using dispatch_all_handled by blast
  have a1: "trace a1 = trace a @ [Yielded]"
    "on_notification_handlers a1 = on_notification_handlers a"
    "on_request_handlers a1 = on_request_handlers a"
    "server_ready a1 = server_ready a"
    by (simp_all add: a1_def emit_def)
  have ok1: "registry_ok a1 = registry_ok a"
    by (rule registry_ok_cong) (simp_all add: a1)
  have a2: "trace a2 = trace a @ Yielded # ds1"
    "on_notification_handlers a2 = on_notification_handlers a"
    "on_request_handlers a2 = on_request_handlers a"
    using handledD(1,3,4) [OF h1] a1 by simp_all
  have mono2: "server_ready a \<longrightarrow> server_ready a2"
    using handledD(7) [OF h1] a1 by simp
  have just2: "registry_ok a \<and> server_ready a2 \<longrightarrow> server_ready a \<or> list_ex test_passed ds1"
    using handledD(8) [OF h1] a1 ok1 by simp
  have ok2: "registry_ok a2 = registry_ok a"
    by (rule registry_ok_cong) (simp_all add: a2)
  note fs1 = handledD(2) [OF h1]
  show ?thesis
  proof (cases "body_raises s")
    case (Some e)
    with assms have res: "a' = a2"
      by (simp add: after_yield_def Let_def a1_def a2_def)
    have "trace a' = trace a @ Yielded # ds1 \<and>
      list_all (\<lambda>e. \<not> initialized_sent e) ds1 \<and>
      Yielded \<notin> set ds1 \<and>
      on_notification_handlers a' = on_notification_handlers a \<and>
      on_request_handlers a' = on_request_handlers a \<and>
      (server_ready a \<longrightarrow> server_ready a') \<and>
      (registry_ok a \<and> server_ready a' \<longrightarrow> server_ready a \<or> list_ex test_passed ds1)"
      unfolding res using a2 mono2 just2 fs1
      by (intro conjI) (simp_all add: from_server_all_not_initialized from_server_no_yield)
    then show ?thesis by (rule exI)
  next
    case None
    define a3 where "a3 = emit (Sent_request ''shutdown'' JNull) a2"
    define a4 where "a4 = dispatch_all (arriving_shutdown s) a3"
    obtain ds2 where h2: "handled a3 a4 ds2"
      unfolding a4_def using dispatch_all_handled by blast
    have a3: "trace a3 = trace a @ Yielded # ds1 @ [Sent_request ''shutdown'' JNull]"
      "on_notification_handlers a3 = on_notification_handlers a"
      "on_request_handlers a3 = on_request_handlers a"
      "server_ready a3 = server_ready a2"
      by (simp_all add: a3_def emit_def a2)
    have ok3: "registry_ok a3 = registry_ok a"
      by (rule registry_ok_cong) (simp_all add: a3)
    have a4: "trace a4 = trace a @ Yielded # ds1 @ [Sent_request ''shutdown'' JNull] @ ds2"
      "on_notification_handlers a4 = on_notification_handlers a"
      "on_request_handlers a4 = on_request_handlers a"
      using handledD(1,3,4) [OF h2] a3 by simp_all
    have mono4: "server_ready a \<longrightarrow> server_ready a4"
      using handledD(7) [OF h2] a3 mono2 by simp
    have just4: "registry_ok a \<and> server_ready a4 \<longrightarrow>
        server_ready a \<or> list_ex test_passed ds1 \<or> list_ex test_passed ds2"
      using handledD(8) [OF h2] a3 ok3 just2 by blast
    note fs2 = handledD(2) [OF h2]
    show ?thesis
    proof (cases "shutdown_result s")
      case (Inl e)
      with assms None have res: "a' = a4"
        by (simp add: after_yield_def Let_def server_shutdown_def send_request_Inl
            a1_def a2_def a3_def a4_def)
      have "trace a' = trace a @ Yielded # (ds1 @ [Sent_request ''shutdown'' JNull] @ ds2) \<and>
        list_all (\<lambda>e. \<not> initialized_sent e) (ds1 @ [Sent_request ''shutdown'' JNull] @ ds2) \<and>
        Yielded \<notin> set (ds1 @ [Sent_request ''shutdown'' JNull] @ ds2) \<and>
        on_notification_handlers a' = on_notification_handlers a \<and>
        on_request_handlers a' = on_request_handlers a \<and>
        (server_ready a \<longrightarrow> server_ready a') \<and>
        (registry_ok a \<and> server_ready a' \<longrightarrow> server_ready a \<or>
           list_ex test_passed (ds1 @ [Sent_request ''shutdown'' JNull] @ ds2))"
        unfolding res using a4 mono4 just4 fs1 fs2
        by (intro conjI) (simp_all add: from_server_all_not_initialized from_server_no_yield)
      then show ?thesis by (rule exI)
    next
      case (Inr v)
      define a5 where "a5 = server_stop (send_notification ''exit'' JNull
          (emit (Received_response ''shutdown'' v) a4))"
      from assms None Inr have res: "a' = a5"
        by (simp add: after_yield_def Let_def server_shutdown_def send_request_Inr
            a1_def a2_def a3_def a4_def a5_def)
      have a5: "trace a5 = trace a @ Yielded # ds1 @ [Sent_request ''shutdown'' JNull] @ ds2
          @ [Received_response ''shutdown'' v, Sent_notification ''exit'' JNull, Process_stopped]"
        "on_notification_handlers a5 = on_notification_handlers a"
        "on_request_handlers a5 = on_request_handlers a"
        "server_ready a5 = server_ready a4"
        by (simp_all add: a5_def server_stop_def send_notification_def emit_def a4)
      have "trace a' = trace a @ Yielded # (ds1 @ [Sent_request ''shutdown'' JNull] @ ds2
          @ [Received_response ''shutdown'' v, Sent_notification ''exit'' JNull, Process_stopped]) \<and>
        list_all (\<lambda>e. \<not> initialized_sent e) (ds1 @ [Sent_request ''shutdown'' JNull] @ ds2
          @ [Received_response ''shutdown'' v, Sent_notification ''exit'' JNull, Process_stopped]) \<and>
        Yielded \<notin> set (ds1 @ [Sent_request ''shutdown'' JNull] @ ds2
          @ [Received_response ''shutdown'' v, Sent_notification ''exit'' JNull, Process_stopped]) \<and>
        on_notification_handlers a' = on_notification_handlers a \<and>
        on_request_handlers a' = on_request_handlers a \<and>
        (server_ready a \<longrightarrow> server_ready a') \<and>
        (registry_ok a \<and> server_ready a' \<longrightarrow> server_ready a \<or>
           list_ex test_passed (ds1 @ [Sent_request ''shutdown'' JNull] @ ds2
          @ [Received_response ''shutdown'' v, Sent_notification ''exit'' JNull, Process_stopped]))"
        unfolding res using a5 mono4 just4 fs1 fs2
        by (intro conjI) (simp_all add: from_server_all_not_initialized from_server_no_yield)
      then show ?thesis by (rule exI)
    qed
  qed
qed

lemma start_server_cases:
  assumes "start_server h s a = (r, a')"
  shows "(handshake h s (register_handlers a) = (r, a') \<and> r \<noteq> Completed) \<or>
         (\<exists>a1. handshake h s (register_handlers a) = (Completed, a1) \<and>
                after_yield s a1 = (r, a'))"
proof -
  obtain r1 a1 where hs: "handshake h s (register_handlers a) = (r1, a1)"
    by (cases "handshake h s (register_handlers a)")
  show ?thesis
  proof (cases r1)
    case Completed
    with assms hs show ?thesis
      by (auto simp: start_server_def super_start_server_def)
  next
    case (Raised e)
    with assms hs show ?thesis
      by (auto simp: start_server_def super_start_server_def)
  next
    case Blocked
    with assms hs show ?thesis
      by (auto simp: start_server_def super_start_server_def)
  qed
qed


lemma example_session_run:
  "start_server example_host example_session example_adapter =
     (Completed,
      \<lparr>repository_root_path = ''/home/dev/todo'', launch_cmd = ''bundle exec ruby-lsp'',
       launch_cwd = ''/opt/multilspy/static/ruby-lsp'', language_id = ''ruby'',
       server_ready = True, completions_available = True,
       on_notification_handlers =
         [(''window/logMessage'', Window_log_message), (''$/progress'', Do_nothing),
          (''textDocument/publishDiagnostics'', Do_nothing)],
       on_request_handlers =
         [(''workspace/executeClientCommand'', Execute_client_command_handler)],
       process_running = False,
       trace =
         [Process_started,
          Sent_request ''initialize''
            (JObj [(''processId'', JInt 4242), (''rootPath'', JStr ''/home/dev/todo''),
                   (''rootUri'', JStr ''file:///home/dev/todo''), (''capabilities'', JObj []),
                   (''workspaceFolders'',
                      JArr [JObj [(''uri'', JStr ''file:///home/dev/todo''),
                                  (''name'', JStr ''todo'')]])]),
          Notified ''window/logMessage'' Window_log_message
            (JObj [(''type'', JInt 3), (''message'', JStr ''Indexing'')]),
          Received_response ''initialize'' (JObj [(''capabilities'', JObj [])]),
          Sent_notification ''initialized'' (JObj []),
          Notified ''$/progress'' Do_nothing JNull,
          Notified ''window/logMessage'' Window_log_message
            (JObj [(''type'', JInt 3), (''message'', JStr ''Finished indexing'')]),
          Yielded,
          Sent_request ''shutdown'' JNull,
          Received_response ''shutdown'' JNull,
          Sent_notification ''exit'' JNull,
          Process_stopped]\<rparr>)"
  by (simp add: start_server_def super_start_server_def register_handlers_def
      on_notification_def on_request_def handshake_def server_start_def
      example_adapter_def example_session_def example_initialize_params
      send_request_def send_notification_def emit_def finish_handler_def
      window_log_message_def finished_in_def and_then_def do_nothing_def
      after_yield_def server_shutdown_def server_stop_def Let_def)

lemma raising_session_run:
  "start_server example_host raising_session example_adapter =
     (Raised (HostError ''RuntimeError''),
      \<lparr>repository_root_path = ''/home/dev/todo'', launch_cmd = ''bundle exec ruby-lsp'',
       launch_cwd = ''/opt/multilspy/static/ruby-lsp'', language_id = ''ruby'',
       server_ready = True, completions_available = True,
       on_notification_handlers =
         [(''window/logMessage'', Window_log_message), (''$/progress'', Do_nothing),
          (''textDocument/publishDiagnostics'', Do_nothing)],
       on_request_handlers =
         [(''workspace/executeClientCommand'', Execute_client_command_handler)],
       process_running = True,
       trace =
         [Process_started,
          Sent_request ''initialize''
            (JObj [(''processId'', JInt 4242), (''rootPath'', JStr ''/home/dev/todo''),
                   (''rootUri'', JStr ''file:///home/dev/todo''), (''capabilities'', JObj []),
                   (''workspaceFolders'',
                      JArr [JObj [(''uri'', JStr ''file:///home/dev/todo''),
                                  (''name'', JStr ''todo'')]])]),
          Notified ''window/logMessage'' Window_log_message
            (JObj [(''type'', JInt 3), (''message'', JStr ''Indexing'')]),
          Received_response ''initialize'' (JObj [(''capabilities'', JObj [])]),
          Sent_notification ''initialized'' (JObj []),
          Notified ''$/progress'' Do_nothing JNull,
          Notified ''window/logMessage'' Window_log_message
            (JObj [(''type'', JInt 3), (''message'', JStr ''Finished indexing'')]),
          Yielded]\<rparr>)"
  by (simp add: start_server_def super_start_server_def register_handlers_def
      on_notification_def on_request_def handshake_def server_start_def
      example_adapter_def example_session_def raising_session_def example_initialize_params
      send_request_def send_notification_def emit_def finish_handler_def
      window_log_message_def finished_in_def and_then_def do_nothing_def
      after_yield_def server_shutdown_def server_stop_def Let_def)

lemma example_init:
  "init example_host ''/home/dev/todo'' example_world = (Inr example_adapter, populated_world)"
  by (simp add: init_def example_setup example_adapter_def)
     (simp add: example_host_def)

lemma not_in_set_list_all: "y \<notin> set xs \<Longrightarrow> list_all (\<lambda>e. \<not> e = y) xs"
  by (induction xs) auto

lemma start_server_shape:
  assumes run: "start_server h s a = (r, a')"
  shows "\<exists>evs. trace a' = trace a @ evs \<and>
           guarded initialize_answered initialized_sent False evs \<and>
           (registry_ok a \<longrightarrow> guarded test_passed (\<lambda>e. e = Yielded) (server_ready a) evs) \<and>
           on_notification_handlers a' = on_notification_handlers (register_handlers a) \<and>
           on_request_handlers a' = on_request_handlers (register_handlers a) \<and>
           (server_ready a \<longrightarrow> server_ready a') \<and>
           (registry_ok a \<and> server_ready a' \<longrightarrow> server_ready a \<or> list_ex test_passed evs) \<and>
           (Yielded \<in> set evs \<longrightarrow> server_ready a')"
proof -
  let ?b = "register_handlers a"
  note f = register_handlers_fields [of a]
  from start_server_cases [OF run] show ?thesis
  proof
    assume "handshake h s ?b = (r, a') \<and> r \<noteq> Completed"
    then have hs: "handshake h s ?b = (r, a')" by (rule conjunct1)
    from handshake_shape [OF hs] obtain evs where
      t: "trace a' = trace ?b @ evs" and
      g: "guarded initialize_answered initialized_sent False evs" and
      y: "Yielded \<notin> set evs" and
      n: "on_notification_handlers a' = on_notification_handlers ?b" and
      q: "on_request_handlers a' = on_request_handlers ?b" and
      m: "server_ready ?b \<longrightarrow> server_ready a'" and
      o: "registry_ok ?b \<and> server_ready a' \<longrightarrow> server_ready ?b \<or> list_ex test_passed evs"
      by (elim exE conjE) (rule that)
    have g2: "guarded test_passed (\<lambda>e. e = Yielded) (server_ready a) evs"
      by (rule guarded_none) (rule not_in_set_list_all [OF y])
    have o': "registry_ok a \<and> server_ready a' \<longrightarrow> server_ready a \<or> list_ex test_passed evs"
      using o register_handlers_ok [of a] f(2) by simp
    have "trace a' = trace a @ evs \<and>
           guarded initialize_answered initialized_sent False evs \<and>
           (registry_ok a \<longrightarrow> guarded test_passed (\<lambda>e. e = Yielded) (server_ready a) evs) \<and>
           on_notification_handlers a' = on_notification_handlers ?b \<and>
           on_request_handlers a' = on_request_handlers ?b \<and>
           (server_ready a \<longrightarrow> server_ready a') \<and>
           (registry_ok a \<and> server_ready a' \<longrightarrow> server_ready a \<or> list_ex test_passed evs) \<and>
           (Yielded \<in> set evs \<longrightarrow> server_ready a')"
      using t g g2 n q m o' f(1) f(2) y by simp
    then show ?thesis by (rule exI)
  next
    assume "\<exists>a1. handshake h s ?b = (Completed, a1) \<and> after_yield s a1 = (r, a')"
    then obtain a1 where hs: "handshake h s ?b = (Completed, a1)"
      and ay: "after_yield s a1 = (r, a')"
      by (elim exE conjE) (rule that)
    from handshake_shape [OF hs] obtain evs where
      t: "trace a1 = trace ?b @ evs" and
      g: "guarded initialize_answered initialized_sent False evs" and
      y: "Yielded \<notin> set evs" and
      n: "on_notification_handlers a1 = on_notification_handlers ?b" and
      q: "on_request_handlers a1 = on_request_handlers ?b" and
      m: "server_ready ?b \<longrightarrow> server_ready a1" and
      o: "registry_ok ?b \<and> server_ready a1 \<longrightarrow> server_ready ?b \<or> list_ex test_passed evs" and
      c: "Completed = Completed \<longrightarrow> server_ready a1 \<and> process_running a1"
      by (elim exE conjE) (rule that)
    from after_yield_shape [OF ay] obtain evs' where
      t': "trace a' = trace a1 @ Yielded # evs'" and
      i': "list_all (\<lambda>e. \<not> initialized_sent e) evs'" and
      y': "Yielded \<notin> set evs'" and
      n': "on_notification_handlers a' = on_notification_handlers a1" and
      q': "on_request_handlers a' = on_request_handlers a1" and
      m': "server_ready a1 \<longrightarrow> server_ready a'" and
      o': "registry_ok a1 \<and> server_ready a' \<longrightarrow> server_ready a1 \<or> list_ex test_passed evs'"
      by (elim exE conjE) (rule that)
    have r1: "server_ready a1" using c by simp
    have tt: "trace a' = trace a @ (evs @ Yielded # evs')"
      using t t' f(1) by simp
    have gi: "guarded initialize_answered initialized_sent False (evs @ Yielded # evs')"
      using g guarded_none [OF i', of initialize_answered] by (simp add: guarded_append)
    have seen: "registry_ok a \<Longrightarrow> server_ready a \<or> list_ex test_passed evs"
      using o r1 register_handlers_ok [of a] f(2) by simp
    have gy: "registry_ok a \<longrightarrow>
        guarded test_passed (\<lambda>e. e = Yielded) (server_ready a) (evs @ Yielded # evs')"
      using guarded_none [OF not_in_set_list_all [OF y], of test_passed "server_ready a"]
        guarded_none [OF not_in_set_list_all [OF y'], of test_passed] seen
      by (simp add: guarded_append)
    have mm: "server_ready a \<longrightarrow> server_ready a'"
      using m m' f(2) by simp
    have oo: "registry_ok a \<and> server_ready a' \<longrightarrow>
        server_ready a \<or> list_ex test_passed (evs @ Yielded # evs')"
      using seen by auto
    have "trace a' = trace a @ (evs @ Yielded # evs') \<and>
           guarded initialize_answered initialized_sent False (evs @ Yielded # evs') \<and>
           (registry_ok a \<longrightarrow>
              guarded test_passed (\<lambda>e. e = Yielded) (server_ready a) (evs @ Yielded # evs')) \<and>
           on_notification_handlers a' = on_notification_handlers ?b \<and>
           on_request_handlers a' = on_request_handlers ?b \<and>
           (server_ready a \<longrightarrow> server_ready a') \<and>
           (registry_ok a \<and> server_ready a' \<longrightarrow>
              server_ready a \<or> list_ex test_passed (evs @ Yielded # evs')) \<and>
           (Yielded \<in> set (evs @ Yielded # evs') \<longrightarrow> server_ready a')"
      using tt gi gy n n' q q' mm oo r1 m' by simp
    then show ?thesis by (rule exI)
  qed
qed

lemma init_session_inv: "init h root w = (Inr a, w') \<Longrightarrow> session_inv a"
  by (auto simp: init_def session_inv_def registry_ok_def split: prod.splits sum.splits)

lemma init_not_ready: "init h root w = (Inr a, w') \<Longrightarrow> \<not> server_ready a"
  by (auto simp: init_def split: prod.splits sum.splits)

lemma window_log_message_keeps_ready:
  "server_ready a \<Longrightarrow> server_ready (snd (window_log_message msg a))"
  by (simp add: window_log_message_def split: sum.splits)

lemma window_log_message_sets_ready:
  "finished_in msg = Inr True \<Longrightarrow> server_ready (snd (window_log_message msg a))"
  by (simp add: window_log_message_def)

lemma dispatch_all_keeps_ready: "server_ready a \<Longrightarrow> server_ready (dispatch_all ms a)"
proof -
  assume r: "server_ready a"
  obtain ds where "handled a (dispatch_all ms a) ds"
    using dispatch_all_handled [of a ms] by (elim exE) (rule that)
  from handledD(7) [OF this r] show ?thesis .
qed

lemma start_server_keeps_ready:
  assumes "server_ready a"
  shows "server_ready (snd (start_server h s a))"
proof -
  have "start_server h s a = (fst (start_server h s a), snd (start_server h s a))" by simp
  from start_server_shape [OF this] assms show ?thesis
    by (elim exE conjE) simp
qed

lemma start_server_body_raises:
  assumes hs: "handshake h s (register_handlers a) = (Completed, a1)"
    and br: "body_raises s = Some e"
  shows "start_server h s a = (Raised e, dispatch_all (arriving_body s) (emit Yielded a1))"
    and "process_running (dispatch_all (arriving_body s) (emit Yielded a1))"
proof -
  show "start_server h s a = (Raised e, dispatch_all (arriving_body s) (emit Yielded a1))"
    using hs br by (simp add: start_server_def super_start_server_def after_yield_def)
  from handshake_shape [OF hs] have "process_running a1"
    by (elim exE conjE) simp
  then have p: "process_running (emit Yielded a1)" by (simp add: emit_def)
  obtain ds where "handled (emit Yielded a1) (dispatch_all (arriving_body s) (emit Yielded a1)) ds"
    using dispatch_all_handled [of "emit Yielded a1" "arriving_body s"] by (elim exE) (rule that)
  from handledD(5) [OF this] p
  show "process_running (dispatch_all (arriving_body s) (emit Yielded a1))" by simp
qed

lemma example_marker: 
  "finished_in (JObj [(''type'', JInt 3), (''message'', JStr ''Finished indexing'')]) = Inr True"
  by (simp add: finished_in_def and_then_def)


lemma marker_observed_test: "marker_observed e \<Longrightarrow> test_passed e"
proof (cases e)
  case (Notified name cb params)
  assume "marker_observed e"
  with Notified show ?thesis
    by (auto simp: finished_in_def and_then_def getitem_str_field
             split: option.splits json.splits)
qed simp_all





section \<open>The properties of a session\<close>

text \<open>
  C5. In every session the \<open>initialized\<close> notification is sent only after the response to the
  \<open>initialize\<close> request has been received: in the events that a run of \<open>start_server\<close> adds
  to the trace, whatever the host, the arriving messages and the way the run ends, every
  sending of \<open>initialized\<close> has the arrival of the response to \<open>initialize\<close> before it.
\<close>

theorem initialized_only_after_initialize_response:
  assumes "start_server h s a = (r, a')"
  shows "\<exists>evs. trace a' = trace a @ evs \<and>
           (\<forall>pre e post. evs = pre @ e # post \<and> initialized_sent e \<longrightarrow>
              list_ex initialize_answered pre)"
proof -
  from start_server_shape [OF assms] obtain evs where
    t: "trace a' = trace a @ evs" and
    g: "guarded initialize_answered initialized_sent False evs"
    by (elim exE conjE) (rule that)
  have "\<forall>pre e post. evs = pre @ e # post \<and> initialized_sent e \<longrightarrow>
      list_ex initialize_answered pre"
    using guarded_split [OF g] by blast
  with t have "trace a' = trace a @ evs \<and>
           (\<forall>pre e post. evs = pre @ e # post \<and> initialized_sent e \<longrightarrow>
              list_ex initialize_answered pre)" by (rule conjI)
  then show ?thesis by (rule exI)
qed

theorem initialized_only_after_initialize_response_witness:
  "fst (start_server example_host example_session example_adapter) = Completed \<and>
   trace (snd (start_server example_host example_session example_adapter)) =
     trace example_adapter @
     [Process_started,
      Sent_request ''initialize''
        (JObj [(''processId'', JInt 4242), (''rootPath'', JStr ''/home/dev/todo''),
               (''rootUri'', JStr ''file:///home/dev/todo''), (''capabilities'', JObj []),
               (''workspaceFolders'',
                  JArr [JObj [(''uri'', JStr ''file:///home/dev/todo''),
                              (''name'', JStr ''todo'')]])]),
      Notified ''window/logMessage'' Window_log_message
        (JObj [(''type'', JInt 3), (''message'', JStr ''Indexing'')]),
      Received_response ''initialize'' (JObj [(''capabilities'', JObj [])])] @
     Sent_notification ''initialized'' (JObj []) #
     [Notified ''$/progress'' Do_nothing JNull,
      Notified ''window/logMessage'' Window_log_message
        (JObj [(''type'', JInt 3), (''message'', JStr ''Finished indexing'')]),
      Yielded,
      Sent_request ''shutdown'' JNull,
      Received_response ''shutdown'' JNull,
      Sent_notification ''exit'' JNull,
      Process_stopped] \<and>
   initialized_sent (Sent_notification ''initialized'' (JObj [])) \<and>
   list_ex initialize_answered
     [Process_started,
      Sent_request ''initialize''
        (JObj [(''processId'', JInt 4242), (''rootPath'', JStr ''/home/dev/todo''),
               (''rootUri'', JStr ''file:///home/dev/todo''), (''capabilities'', JObj []),
               (''workspaceFolders'',
                  JArr [JObj [(''uri'', JStr ''file:///home/dev/todo''),
                              (''name'', JStr ''todo'')]])]),
      Notified ''window/logMessage'' Window_log_message
        (JObj [(''type'', JInt 3), (''message'', JStr ''Indexing'')]),
      Received_response ''initialize'' (JObj [(''capabilities'', JObj [])])]"
  (is "?c1 \<and> trace ?A = trace example_adapter @ ?pre @ ?e # ?post \<and> ?c3 \<and> ?c4")
proof -
  have c1: ?c1 by (simp add: example_session_run)
  have run: "start_server example_host example_session example_adapter = (Completed, ?A)"
    by (simp add: example_session_run)
  have ta: "trace example_adapter = []" by (simp add: example_adapter_def)
  have c2: "trace ?A = trace example_adapter @ ?pre @ ?e # ?post"
    by (simp add: example_session_run ta)
  have c3: ?c3 by simp
  from initialized_only_after_initialize_response [OF run] obtain evs where
    t: "trace ?A = trace example_adapter @ evs" and
    ord: "\<forall>pre e post. evs = pre @ e # post \<and> initialized_sent e \<longrightarrow>
              list_ex initialize_answered pre"
    by (elim exE conjE) (rule that)
  from t c2 have evs: "evs = ?pre @ ?e # ?post" by simp
  have c4: ?c4
    by (rule ord [rule_format, of ?pre ?e ?post]) (rule conjI [OF evs c3])
  show ?thesis by (rule conjI [OF c1 conjI [OF c2 conjI [OF c3 c4]]])
qed




text \<open>
  C7. The readiness latch is monotonic. \<open>__init__\<close> leaves \<open>server_ready\<close> unset; the callback
  \<open>window_log_message\<close> sets it on a message that contains the marker; and once it is set, it
  stays set through a run of the callback on any message, through the handling of any inbound
  messages, and through a whole run of \<open>start_server\<close>.
\<close>

theorem server_ready_is_monotonic:
  "(init h root w = (Inr a0, w') \<longrightarrow> \<not> server_ready a0) \<and>
   (finished_in msg = Inr True \<longrightarrow> server_ready (snd (window_log_message msg a))) \<and>
   (server_ready a \<longrightarrow> server_ready (snd (window_log_message msg a))) \<and>
   (server_ready a \<longrightarrow> server_ready (dispatch_all ms a)) \<and>
   (server_ready a \<longrightarrow> server_ready (snd (start_server h s a)))"
  using init_not_ready [of h root w a0 w'] window_log_message_sets_ready [of msg a]
    window_log_message_keeps_ready [of a msg] dispatch_all_keeps_ready [of a ms]
    start_server_keeps_ready [of a h s]
  by blast

theorem server_ready_is_monotonic_witness:
  "init example_host ''/home/dev/todo'' example_world = (Inr example_adapter, populated_world) \<and>
   \<not> server_ready example_adapter \<and>
   finished_in (JObj [(''type'', JInt 3), (''message'', JStr ''Finished indexing'')]) = Inr True \<and>
   server_ready (snd (window_log_message
      (JObj [(''type'', JInt 3), (''message'', JStr ''Finished indexing'')]) example_adapter)) \<and>
   server_ready (snd (start_server example_host example_session example_adapter)) \<and>
   server_ready (snd (window_log_message
      (JObj [(''type'', JInt 3), (''message'', JStr ''Indexing'')])
      (snd (start_server example_host example_session example_adapter)))) \<and>
   server_ready (dispatch_all
      [Notification ''window/logMessage''
         (JObj [(''type'', JInt 3), (''message'', JStr ''Indexing'')]),
       Notification ''$/progress'' JNull]
      (snd (start_server example_host example_session example_adapter))) \<and>
   server_ready (snd (start_server example_host example_session
      (snd (start_server example_host example_session example_adapter))))"
  (is "?c1 \<and> ?c2 \<and> ?c3 \<and> ?c4 \<and> ?c5 \<and> ?c6 \<and> ?c7 \<and> ?c8")
proof -
  let ?fin = "JObj [(''type'', JInt 3), (''message'', JStr ''Finished indexing'')]"
  let ?idx = "JObj [(''type'', JInt 3), (''message'', JStr ''Indexing'')]"
  let ?A = "snd (start_server example_host example_session example_adapter)"
  let ?ms = "[Notification ''window/logMessage'' ?idx, Notification ''$/progress'' JNull]"
  note t0 = server_ready_is_monotonic [of example_host "''/home/dev/todo''" example_world
      example_adapter populated_world ?fin example_adapter ?ms example_session]
  note t1 = server_ready_is_monotonic [of example_host "''/home/dev/todo''" example_world
      example_adapter populated_world ?idx ?A ?ms example_session]
  have c1: ?c1 by (rule example_init)
  have c2: ?c2 by (rule mp [OF conjunct1 [OF t0] c1])
  have c3: ?c3 by (rule example_marker)
  have c4: ?c4 by (rule mp [OF conjunct1 [OF conjunct2 [OF t0]] c3])
  have c5: ?c5 by (simp add: example_session_run)
  have c6: ?c6 by (rule mp [OF conjunct1 [OF conjunct2 [OF conjunct2 [OF t1]]] c5])
  have c7: ?c7 by (rule mp [OF conjunct1 [OF conjunct2 [OF conjunct2 [OF conjunct2 [OF t1]]]] c5])
  have c8: ?c8 by (rule mp [OF conjunct2 [OF conjunct2 [OF conjunct2 [OF conjunct2 [OF t1]]]] c5])
  show ?thesis
    by (rule conjI [OF c1 conjI [OF c2 conjI [OF c3 conjI [OF c4 conjI [OF c5
          conjI [OF c6 conjI [OF c7 c8]]]]]]])
qed

text \<open>
  C1. The specification has it that on every way out of the scope of \<open>start_server\<close>, also by an
  exception of the caller's block, the shutdown request and the stop are driven and the child
  process no longer runs. The code does so only when the block ends without an exception: in
  the session \<open>raising_session\<close> the block raises, the exception leaves \<open>start_server\<close>, no
  shutdown request is sent and the process is still running, while in \<open>example_session\<close>,
  which differs in this only, the process is stopped. Lemma \<open>start_server_body_raises\<close> has
  the same for every session whose block raises.
\<close>

theorem exception_in_scope_skips_shutdown:
  "fst (start_server example_host raising_session example_adapter) =
     Raised (HostError ''RuntimeError'') \<and>
   process_running (snd (start_server example_host raising_session example_adapter)) \<and>
   Sent_request ''shutdown'' JNull
     \<notin> set (trace (snd (start_server example_host raising_session example_adapter))) \<and>
   Process_stopped
     \<notin> set (trace (snd (start_server example_host raising_session example_adapter))) \<and>
   fst (start_server example_host example_session example_adapter) = Completed \<and>
   \<not> process_running (snd (start_server example_host example_session example_adapter)) \<and>
   Process_stopped
     \<in> set (trace (snd (start_server example_host example_session example_adapter)))"
  by (simp add: raising_session_run example_session_run)

end
